theory Spec2Isabelle
  imports Complex_Main "HOL-Library.Sublist"
begin

section \<open>Text and Python string primitives\<close>

text \<open>
  A Python \<open>str\<close> is modelled as a \<open>string\<close>; a \<open>char\<close> stands for the code
  point of the same number, so the texts covered are those over U+0000..U+00FF.
  On this alphabet \<open>str.isspace\<close> and the regular expression class \<open>\s\<close> hold for
  the code points 9..13, 28..32, 133 and 160, and \<open>\d\<close> for the ten ASCII digits.
\<close>

definition is_space :: "char \<Rightarrow> bool" where
  "is_space c = (let n = (of_char c :: nat) in
     (9 \<le> n \<and> n \<le> 13) \<or> (28 \<le> n \<and> n \<le> 32) \<or> n = 133 \<or> n = 160)"

definition is_digit :: "char \<Rightarrow> bool" where
  "is_digit c = (let n = (of_char c :: nat) in 48 \<le> n \<and> n \<le> 57)"

definition lower_char :: "char \<Rightarrow> char" where
  "lower_char c = (let n = (of_char c :: nat) in
     if (65 \<le> n \<and> n \<le> 90) \<or> (192 \<le> n \<and> n \<le> 222 \<and> n \<noteq> 215)
     then char_of (n + 32) else c)"

definition lower :: "string \<Rightarrow> string" where
  "lower s = map lower_char s"

text \<open>\<open>s.strip(chars)\<close>: the characters of the set are dropped from both ends.\<close>

definition strip_chars :: "(char \<Rightarrow> bool) \<Rightarrow> string \<Rightarrow> string" where
  "strip_chars P s = rev (dropWhile P (rev (dropWhile P s)))"

definition strip :: "string \<Rightarrow> string" where
  "strip s = strip_chars is_space s"

text \<open>\<open>x in s\<close> on strings.\<close>

fun py_in :: "string \<Rightarrow> string \<Rightarrow> bool" where
  "py_in x [] = (x = [])"
| "py_in x (c # cs) = (prefix x (c # cs) \<or> py_in x cs)"

text \<open>\<open>s.startswith(p)\<close> is \<^const>\<open>prefix\<close>.\<close>

text \<open>
  \<open>s[a:b]\<close> for integers \<open>a\<close> and \<open>b\<close>: a negative bound counts from the end, and
  both bounds are clamped to the string.
\<close>

definition slice_bound :: "nat \<Rightarrow> int \<Rightarrow> nat" where
  "slice_bound n i = (if i < 0 then nat (max 0 (int n + i)) else min n (nat i))"

definition py_slice :: "'a list \<Rightarrow> int \<Rightarrow> int \<Rightarrow> 'a list" where
  "py_slice s a b =
     (let lo = slice_bound (length s) a; hi = slice_bound (length s) b
      in take (hi - lo) (drop lo s))"

text \<open>\<open>s[:b]\<close>.\<close>

definition py_slice_to :: "'a list \<Rightarrow> int \<Rightarrow> 'a list" where
  "py_slice_to s b = py_slice s 0 b"

text \<open>
  \<open>s.rfind(ch, 0, e)\<close> for a single character \<open>ch\<close> and \<open>0 \<le> e\<close>: the highest index below
  \<open>e\<close> that holds \<open>ch\<close>, or \<open>-1\<close>.
\<close>

fun rfind_from :: "char \<Rightarrow> string \<Rightarrow> nat \<Rightarrow> int" where
  "rfind_from ch s 0 = -1"
| "rfind_from ch s (Suc i) =
     (if i < length s \<and> s ! i = ch then int i else rfind_from ch s i)"

definition rfind :: "string \<Rightarrow> char \<Rightarrow> nat \<Rightarrow> int" where
  "rfind s ch e = rfind_from ch s (min e (length s))"

section \<open>Regular expressions as Python's \<open>re\<close> matches them\<close>

text \<open>
  The patterns of the chunker use literals, character classes, concatenation,
  alternation, greedy \<open>+\<close> and greedy \<open>?\<close>.  \<open>ms r s\<close> lists what is left of \<open>s\<close>
  after each way of matching \<open>r\<close> at its start, in the order the backtracking
  matcher tries them: the left alternative first, one more repetition before
  stopping.  The head of the list is the match \<open>re\<close> reports.
\<close>

datatype rx =
    Lit "char \<Rightarrow> bool"
  | Cat rx rx
  | Alt rx rx
  | Plus rx
  | Opt rx

fun ms :: "rx \<Rightarrow> string \<Rightarrow> string list" where
  "ms (Lit P) [] = []"
| "ms (Lit P) (c # cs) = (if P c then [cs] else [])"
| "ms (Cat a b) s = concat (map (ms b) (ms a s))"
| "ms (Alt a b) s = ms a s @ ms b s"
| "ms (Opt a) s = ms a s @ [s]"
| "ms (Plus a) s =
     concat (map (\<lambda>s'. (if length s' < length s then ms (Plus a) s' else []) @ [s'])
                 (ms a s))"

text \<open>The length of the match at the start of \<open>s\<close>, if there is one.\<close>

definition rx_match :: "rx \<Rightarrow> string \<Rightarrow> nat option" where
  "rx_match r s = (case ms r s of [] \<Rightarrow> None | s' # _ \<Rightarrow> Some (length s - length s'))"

text \<open>
  \<open>pattern.finditer(text)\<close>: the non-overlapping matches from left to right, each with
  its start index.  None of the patterns below matches the empty string (lemmas
  \<open>table_pattern_consumes\<close> to \<open>figure_pattern_consumes\<close>), and a match of length 0 is
  passed over here.
\<close>

function finditer_from :: "rx \<Rightarrow> nat \<Rightarrow> string \<Rightarrow> (nat \<times> string) list" where
  "finditer_from r pos s =
     (if s = [] then []
      else case rx_match r s of
             None \<Rightarrow> finditer_from r (pos + 1) (tl s)
           | Some n \<Rightarrow>
               if n = 0 then finditer_from r (pos + 1) (tl s)
               else (pos, take n s) # finditer_from r (pos + n) (drop n s))"
  by pat_completeness auto
termination
  by (relation "measure (\<lambda>(r, pos, s). length s)") (auto simp: neq_Nil_conv)

definition finditer :: "rx \<Rightarrow> string \<Rightarrow> (nat \<times> string) list" where
  "finditer r s = finditer_from r 0 s"

text \<open>\<open>pattern.sub(repl, text)\<close> and \<open>re.sub(pattern, repl, text)\<close>, for a replacement without
  group references.\<close>

function re_sub :: "rx \<Rightarrow> string \<Rightarrow> string \<Rightarrow> string" where
  "re_sub r repl s =
     (if s = [] then []
      else case rx_match r s of
             None \<Rightarrow> hd s # re_sub r repl (tl s)
           | Some n \<Rightarrow>
               if n = 0 then hd s # re_sub r repl (tl s)
               else repl @ re_sub r repl (drop n s))"
  by pat_completeness auto
termination
  by (relation "measure (\<lambda>(r, repl, s). length s)") (auto simp: neq_Nil_conv)

text \<open>Pattern building blocks.\<close>

definition ch :: "char \<Rightarrow> rx" where
  "ch c = Lit (\<lambda>x. x = c)"

definition not_ch :: "char \<Rightarrow> rx" where
  "not_ch c = Lit (\<lambda>x. x \<noteq> c)"

text \<open>A literal letter under \<open>re.IGNORECASE\<close>.\<close>

definition ci :: "char \<Rightarrow> rx" where
  "ci c = Lit (\<lambda>x. lower_char x = lower_char c)"

fun cats :: "rx \<Rightarrow> rx list \<Rightarrow> rx" where
  "cats r [] = r"
| "cats r (q # qs) = Cat r (cats q qs)"

fun word :: "(char \<Rightarrow> rx) \<Rightarrow> string \<Rightarrow> rx" where
  "word f [] = Opt (Lit (\<lambda>x. False))"
| "word f (c # cs) = cats (f c) (map f cs)"

section \<open>The chunker (\<open>src/processing/chunker.py\<close>)\<close>

text \<open>
  Metadata values are Python objects; the ones that occur are strings, integers
  and \<open>None\<close>.  A metadata dictionary maps keys to values.
\<close>

datatype pyval = PStr string | PInt int | PNone

type_synonym metadata = "string \<rightharpoonup> pyval"

record text_node =
  node_text :: string
  metadata :: metadata

definition nl :: char where
  "nl = CHR 0x0A"

text \<open>
  \<open>table_pattern = \|[^\n]+\|\n(?:\|[-:]+\|)+\n(?:\|[^\n]+\|\n?)+\<close>
  (\<open>re.MULTILINE\<close> changes only the anchors, and the patterns have none).
\<close>

definition table_pattern :: rx where
  "table_pattern =
     cats (ch CHR ''|'')
       [Plus (not_ch nl), ch CHR ''|'', ch nl,
        Plus (cats (ch CHR ''|'')
                [Plus (Lit (\<lambda>x. x = CHR ''-'' \<or> x = CHR '':'')), ch CHR ''|'']),
        ch nl,
        Plus (cats (ch CHR ''|'') [Plus (not_ch nl), ch CHR ''|'', Opt (ch nl)])]"

text \<open>\<open>\$\$[^$]+\$\$\<close>, the pattern \<open>_remove_special_content\<close> passes to \<open>re.sub\<close>.\<close>

definition block_equation_pattern :: rx where
  "block_equation_pattern =
     cats (ch CHR ''$'')
       [ch CHR ''$'', Plus (not_ch CHR ''$''), ch CHR ''$'', ch CHR ''$'']"

text \<open>\<open>equation_pattern = \$\$[^$]+\$\$|\$[^$]+\$\<close>\<close>

definition equation_pattern :: rx where
  "equation_pattern =
     Alt block_equation_pattern
         (cats (ch CHR ''$'') [Plus (not_ch CHR ''$''), ch CHR ''$''])"

text \<open>
  \<open>figure_pattern = (?:Figure|Fig\.?)\s+\d+[.:][^\n]+(?:\n[^\n]+)?\<close> with
  \<open>re.IGNORECASE\<close>.
\<close>

definition figure_pattern :: rx where
  "figure_pattern =
     cats (Alt (word ci ''Figure'') (Cat (word ci ''Fig'') (Opt (ch CHR ''.''))))
       [Plus (Lit is_space), Plus (Lit is_digit),
        Lit (\<lambda>x. x = CHR ''.'' \<or> x = CHR '':''),
        Plus (not_ch nl),
        Opt (Cat (ch nl) (Plus (not_ch nl)))]"

text \<open>One table match becomes one node; \<open>m\<close> is the match's start and text.\<close>

definition table_node :: "string \<Rightarrow> metadata \<Rightarrow> nat \<times> string \<Rightarrow> text_node" where
  "table_node txt base_metadata m =
     (let table_text = snd m;
          start = fst m;
          context_start = rfind txt nl (nat (max 0 (int start - 200)));
          context = strip (py_slice txt context_start (int start))
      in \<lparr> node_text = ''TABLE:'' @ [nl] @ context @ [nl, nl] @ table_text,
           metadata = base_metadata
             (''content_type'' \<mapsto> PStr ''table'',
              ''context'' \<mapsto> PStr (py_slice_to context 200)) \<rparr>)"

definition extract_tables :: "string \<Rightarrow> metadata \<Rightarrow> text_node list" where
  "extract_tables txt base_metadata =
     map (table_node txt base_metadata) (finditer table_pattern txt)"





definition remove_special_content :: "string \<Rightarrow> string" where
  "remove_special_content txt =
     (let t1 = re_sub table_pattern ''[TABLE REMOVED]'' txt;
          t2 = re_sub block_equation_pattern ''[EQUATION REMOVED]'' t1;
          t3 = re_sub figure_pattern ''[FIGURE REMOVED]'' t2
      in t3)"

section \<open>Configuration (\<open>config.py\<close>)\<close>

definition SIMILARITY_TOP_K :: int where
  "SIMILARITY_TOP_K = 5"

definition RERANK_TOP_N :: int where
  "RERANK_TOP_N = 3"

definition LLM_MODEL :: string where
  "LLM_MODEL = ''llama-3.1-8b-instant''"

definition LLM_TEMPERATURE :: real where
  "LLM_TEMPERATURE = 1 / 10"

section \<open>Python values\<close>

text \<open>Truth value of an object, \<open>a or b\<close>, and \<open>dict.get\<close> with and without default.\<close>

fun truthy :: "pyval \<Rightarrow> bool" where
  "truthy (PStr s) = (s \<noteq> [])"
| "truthy (PInt i) = (i \<noteq> 0)"
| "truthy PNone = False"

definition py_or :: "pyval \<Rightarrow> pyval \<Rightarrow> pyval" where
  "py_or a b = (if truthy a then a else b)"

definition md_get :: "metadata \<Rightarrow> string \<Rightarrow> pyval" where
  "md_get md k = (case md k of None \<Rightarrow> PNone | Some v \<Rightarrow> v)"

definition md_get_default :: "metadata \<Rightarrow> string \<Rightarrow> pyval \<Rightarrow> pyval" where
  "md_get_default md k d = (case md k of None \<Rightarrow> d | Some v \<Rightarrow> v)"

text \<open>\<open>str(n)\<close> for an integer: decimal digits, with a minus sign below zero.\<close>

definition digit_char :: "nat \<Rightarrow> char" where
  "digit_char d = char_of (48 + d)"

function str_nat :: "nat \<Rightarrow> string" where
  "str_nat n = (if n < 10 then [digit_char n] else str_nat (n div 10) @ [digit_char (n mod 10)])"
  by pat_completeness auto
termination
  by (relation "measure id") auto

definition str_int :: "int \<Rightarrow> string" where
  "str_int i = (if i < 0 then CHR ''-'' # str_nat (nat (- i)) else str_nat (nat i))"

text \<open>\<open>str(v)\<close>, as an f-string renders a value.\<close>

fun py_str :: "pyval \<Rightarrow> string" where
  "py_str (PStr s) = s"
| "py_str (PInt i) = str_int i"
| "py_str PNone = ''None''"

section \<open>The retriever (\<open>src/retrieval/retriever.py\<close>)\<close>

text \<open>
  A \<open>NodeWithScore\<close>: a node and an optional similarity score.  Scores are floats
  in the source; here a score is the real number the float stands for.
\<close>

record node_with_score =
  node :: text_node
  score :: "real option"

text \<open>
  Modelled from the spec: \<open>SimilarityPostprocessor\<close>, a class of the \<open>llama_index\<close>
  library, which is not part of the sources.  Section 4.5, step 2: any result
  below the cutoff is dropped.  A node without a score is dropped as well.
\<close>

definition postprocess_nodes :: "real \<Rightarrow> node_with_score list \<Rightarrow> node_with_score list" where
  "postprocess_nodes similarity_cutoff nodes =
     filter (\<lambda>n. case score n of None \<Rightarrow> False | Some sc \<Rightarrow> \<not> sc < similarity_cutoff) nodes"

text \<open>
  The retriever object.  \<open>index_retrieve\<close> stands for \<open>VectorIndexRetriever.retrieve\<close>
  on the index the retriever was built with: the candidates for a query.
\<close>

record scientific_retriever =
  index_retrieve :: "string \<Rightarrow> node_with_score list"
  similarity_top_k :: int
  rerank_top_n :: int
  similarity_cutoff :: real

definition scientific_retriever_init ::
    "(string \<Rightarrow> node_with_score list) \<Rightarrow> int \<Rightarrow> int \<Rightarrow> scientific_retriever" where
  "scientific_retriever_init idx top_k top_n =
     \<lparr> index_retrieve = idx, similarity_top_k = top_k, rerank_top_n = top_n,
       similarity_cutoff = 1 / 2 \<rparr>"

definition default_retriever :: "(string \<Rightarrow> node_with_score list) \<Rightarrow> scientific_retriever" where
  "default_retriever idx = scientific_retriever_init idx SIMILARITY_TOP_K RERANK_TOP_N"

text \<open>\<open>node.node.metadata.get("content_type", "text") in content_types\<close>\<close>

definition content_type_in :: "string list \<Rightarrow> node_with_score \<Rightarrow> bool" where
  "content_type_in content_types n =
     (case md_get_default (metadata (node n)) ''content_type'' (PStr ''text'') of
        PStr s \<Rightarrow> s \<in> set content_types
      | _ \<Rightarrow> False)"

text \<open>
  \<open>retrieve\<close>.  \<open>content_types\<close> is \<open>Optional[List[str]]\<close>; the test
  \<open>if content_types:\<close> is false for \<open>None\<close> and for the empty list.
\<close>

definition retrieve ::
    "scientific_retriever \<Rightarrow> string \<Rightarrow> string list option \<Rightarrow> node_with_score list" where
  "retrieve self query content_types =
     (let nodes = index_retrieve self query;
          nodes = postprocess_nodes (similarity_cutoff self) nodes;
          nodes = (case content_types of
                     None \<Rightarrow> nodes
                   | Some cts \<Rightarrow> if cts \<noteq> [] then filter (content_type_in cts) nodes else nodes)
      in py_slice_to nodes (rerank_top_n self))"

text \<open>\<open>sep.join(parts)\<close>\<close>

fun join :: "string \<Rightarrow> string list \<Rightarrow> string" where
  "join sep [] = []"
| "join sep [x] = x"
| "join sep (x # y # ys) = x @ sep @ join sep (y # ys)"

definition context_part :: "nat \<Rightarrow> node_with_score \<Rightarrow> string" where
  "context_part i n =
     (let source = md_get_default (metadata (node n)) ''source'' (PStr ''Unknown'');
          content_type = md_get_default (metadata (node n)) ''content_type'' (PStr ''text'');
          page = md_get_default (metadata (node n)) ''page_num'' (PStr ''?'');
          header = ''[Source '' @ str_nat i @ '': '' @ py_str source @ '', Page '' @ py_str page
                   @ '', Type: '' @ py_str content_type @ '']''
      in header @ [nl] @ node_text (node n) @ [nl])"

definition format_context_for_llm :: "node_with_score list \<Rightarrow> string" where
  "format_context_for_llm nodes =
     join ([nl] @ ''---'' @ [nl])
          (map (\<lambda>(i, n). context_part i n) (zip [1 ..< Suc (length nodes)] nodes))"

section \<open>The chat engine (\<open>src/chatbot/engine.py\<close>)\<close>

datatype error = ValueError string

text \<open>
  What \<open>__init__\<close> builds: the Groq client's settings, the memory buffer's token limit
  and the retriever's \<open>similarity_top_k\<close>.  The index is kept as it is given.
\<close>

record 'i scientific_chat_engine =
  index :: 'i
  llm_api_key :: string
  llm_model :: string
  llm_temperature :: real
  memory_token_limit :: nat
  engine_top_k :: int

text \<open>
  \<open>__init__\<close>.  \<open>config_key\<close> is \<open>config.GROQ_API_KEY\<close> (the environment variable as
  read when \<open>config\<close> was imported), \<open>env_key\<close> is \<open>os.getenv("GROQ_API_KEY")\<close> at
  construction; both are \<open>None\<close> or a string.  \<open>a or b\<close> is \<open>a\<close> when \<open>a\<close> is a
  non-empty string and \<open>b\<close> otherwise; \<open>not api_key\<close> holds for \<open>None\<close> and for
  the empty string.
\<close>

definition str_truthy :: "string option \<Rightarrow> bool" where
  "str_truthy k = (case k of None \<Rightarrow> False | Some s \<Rightarrow> s \<noteq> [])"

definition scientific_chat_engine_init ::
    "string option \<Rightarrow> string option \<Rightarrow> 'i \<Rightarrow> string \<Rightarrow> real \<Rightarrow> int
       \<Rightarrow> error + 'i scientific_chat_engine" where
  "scientific_chat_engine_init config_key env_key idx model temp top_k =
     (let api_key = (if str_truthy config_key then config_key else env_key)
      in if \<not> str_truthy api_key
         then Inl (ValueError
                ''GROQ_API_KEY not found! Get a FREE key at https://console.groq.com/keys'')
         else Inr \<lparr> index = idx, llm_api_key = the api_key, llm_model = model,
                    llm_temperature = temp, memory_token_limit = 4000,
                    engine_top_k = top_k \<rparr>)"

text \<open>\<open>text.split()\<close>: the maximal runs of non-whitespace characters.\<close>

fun split_ws :: "string \<Rightarrow> string \<Rightarrow> string list" where
  "split_ws cur [] = (if cur = [] then [] else [cur])"
| "split_ws cur (c # cs) =
     (if is_space c then (if cur = [] then split_ws [] cs else cur # split_ws [] cs)
      else split_ws (cur @ [c]) cs)"

definition split :: "string \<Rightarrow> string list" where
  "split s = split_ws [] s"

text \<open>
  What \<open>stream_chat\<close> returns: the mock response of the greeting branch, or the
  response of \<open>CondensePlusContextChatEngine.stream_chat\<close>.
\<close>

record mock_streaming_response =
  response :: string
  response_gen :: "string list"
  source_nodes :: "node_with_score list"

datatype 'r streaming_response = Mock mock_streaming_response | Engine 'r

definition mock_streaming_response_init :: "string \<Rightarrow> mock_streaming_response" where
  "mock_streaming_response_init txt =
     \<lparr> response = txt,
       response_gen =
         map (\<lambda>(i, w). w @ (if int i < int (length (split txt)) - 1 then '' '' else []))
             (zip [0 ..< length (split txt)] (split txt)),
       source_nodes = [] \<rparr>"

definition greetings :: "string list" where
  "greetings = [''hi'', ''hello'', ''hey'', ''greetings'', ''good morning'', ''good afternoon'',
                ''good evening'', ''thanks'', ''thank you'', ''ok'', ''okay'']"

definition clean_msg :: "string \<Rightarrow> string" where
  "clean_msg message =
     strip_chars (\<lambda>c. c \<in> set ''?!. '') (strip (lower message))"

text \<open>
  \<open>stream_chat\<close>.  The collaborator \<open>self.chat_engine\<close> (retrieval from the vector
  index, then generation by the provider, with the conversation memory) is the
  function \<open>chat_engine_stream\<close> on a state \<open>st\<close> of its own: a call takes the
  state and the message and gives the response and the new state.
\<close>

definition stream_chat ::
    "('s \<Rightarrow> string \<Rightarrow> 'r \<times> 's) \<Rightarrow> 's \<Rightarrow> string \<Rightarrow> 'r streaming_response \<times> 's" where
  "stream_chat chat_engine_stream st message =
     (if clean_msg message \<in> set greetings
      then (let reply = ''Hello! How can I help you with your scientific papers today?'';
                reply = (if clean_msg message \<in> set [''thanks'', ''thank you'']
                         then ''You'' @ [CHR 0x27] @ ''re welcome! Let me know if you have more questions about the papers.''
                         else reply)
            in (Mock (mock_streaming_response_init reply), st))
      else (let (response_gen, st') = chat_engine_stream st message
            in (Engine response_gen, st')))"

text \<open>A citation record, one entry of \<open>sources\<close>.\<close>

record citation =
  source :: pyval
  page :: pyval
  content_type :: pyval
  cite_score :: "real option"
  text_preview :: string

text \<open>
  \<open>round(x, 3)\<close> on the real number a float stands for: the nearest multiple of
  \<open>1/1000\<close>, the even one at a tie.
\<close>

definition round_half_even :: "real \<Rightarrow> int" where
  "round_half_even y =
     (let f = \<lfloor>y\<rfloor>; d = y - of_int f
      in if d < 1 / 2 then f else if 1 / 2 < d then f + 1 else if even f then f else f + 1)"

definition py_round3 :: "real \<Rightarrow> real" where
  "py_round3 x = of_int (round_half_even (x * 1000)) / 1000"

definition source_record :: "node_with_score \<Rightarrow> citation" where
  "source_record n =
     \<lparr> source = md_get_default (metadata (node n)) ''source'' (PStr ''Unknown''),
       page = py_or (md_get (metadata (node n)) ''page_label'')
                    (md_get_default (metadata (node n)) ''page_num'' (PStr ''?'')),
       content_type = md_get_default (metadata (node n)) ''content_type'' (PStr ''text''),
       cite_score = (case score n of
                       None \<Rightarrow> None
                     | Some sc \<Rightarrow> if sc \<noteq> 0 then Some (py_round3 sc) else None),
       text_preview = (if length (node_text (node n)) > 200
                       then take 200 (node_text (node n)) @ ''...''
                       else node_text (node n)) \<rparr>"

definition figure_keywords :: "string list" where
  "figure_keywords = [''figure'', ''image'', ''diagram'', ''plot'', ''chart'', ''graph'',
                      ''visual'', ''show me'', ''picture'']"

definition should_extract_images :: "string \<Rightarrow> bool" where
  "should_extract_images message = list_ex (\<lambda>keyword. py_in keyword (lower message)) figure_keywords"

text \<open>
  \<open>int(v)\<close> on a metadata value.  \<open>int_str\<close> is the builtin on strings, \<open>None\<close> where
  it raises; an integer converts to itself and \<open>None\<close> raises.
\<close>

fun py_int :: "(string \<Rightarrow> int option) \<Rightarrow> pyval \<Rightarrow> int option" where
  "py_int int_str (PStr s) = int_str s"
| "py_int int_str (PInt i) = Some i"
| "py_int int_str PNone = None"

text \<open>
  \<open>current_page\<close>: from \<open>page_label\<close> when that key is present, else from
  \<open>page_num\<close>; \<open>None\<close> when the key is absent or the conversion raises.
\<close>

definition current_page :: "(string \<Rightarrow> int option) \<Rightarrow> metadata \<Rightarrow> int option" where
  "current_page int_str md =
     (case md ''page_label'' of
        Some v \<Rightarrow> py_int int_str v
      | None \<Rightarrow> (case md ''page_num'' of Some v \<Rightarrow> py_int int_str v | None \<Rightarrow> None))"

text \<open>
  The images one node adds.  \<open>loads\<close> is \<open>json.loads\<close> on the \<open>image_map\<close> string:
  the decoded object as a map from its keys to lists of paths, the shape the
  parser writes, and \<open>None\<close> where decoding raises.  A value of \<open>image_map\<close> that is not
  a string makes \<open>json.loads\<close> raise.
\<close>

definition node_images ::
    "(string \<Rightarrow> (string \<rightharpoonup> string list) option) \<Rightarrow> (string \<Rightarrow> int option)
       \<Rightarrow> string \<Rightarrow> metadata \<Rightarrow> string list" where
  "node_images loads int_str message md =
     (if should_extract_images message \<and> md ''image_map'' \<noteq> None
      then (case md ''image_map'' of
              Some (PStr js) \<Rightarrow>
                (case loads js of
                   None \<Rightarrow> []
                 | Some image_map \<Rightarrow>
                     (case current_page int_str md of
                        None \<Rightarrow> []
                      | Some cp \<Rightarrow>
                          if cp \<noteq> 0
                          then concat (map (\<lambda>p. case image_map p of None \<Rightarrow> [] | Some l \<Rightarrow> l)
                                          [str_int cp, str_int (cp - 1), str_int (cp + 1)])
                          else []))
            | _ \<Rightarrow> [])
      else [])"

text \<open>The deduplication loop: the first occurrence of each path is kept.\<close>

fun unique_images :: "string list \<Rightarrow> string list \<Rightarrow> string list" where
  "unique_images acc [] = acc"
| "unique_images acc (img # imgs) =
     (if img \<notin> set acc then unique_images (acc @ [img]) imgs else unique_images acc imgs)"

text \<open>
  \<open>_extract_sources_and_images\<close>.  \<open>nodes\<close> is \<open>response.source_nodes\<close>, \<open>None\<close> for a
  response without that attribute.
\<close>

definition extract_sources_and_images ::
    "(string \<Rightarrow> (string \<rightharpoonup> string list) option) \<Rightarrow> (string \<Rightarrow> int option)
       \<Rightarrow> node_with_score list option \<Rightarrow> string \<Rightarrow> citation list \<times> string list" where
  "extract_sources_and_images loads int_str nodes message =
     (case nodes of
        None \<Rightarrow> ([], [])
      | Some ns \<Rightarrow>
          (map source_record ns,
           unique_images []
             (concat (map (\<lambda>n. node_images loads int_str message (metadata (node n))) ns))))"

section \<open>Image filtering (\<open>render_images\<close> in \<open>app.py\<close>)\<close>

text \<open>
  A file as \<open>render_images\<close> sees it: the size \<open>Image.open\<close> reports (\<open>None\<close> when the
  file does not open as an image) and the bytes read from it (\<open>None\<close> when reading
  raises).  The file system maps a path to its file, \<open>None\<close> when
  \<open>os.path.exists\<close> is false.
\<close>

record image_file =
  img_size :: "(int \<times> int) option"
  img_bytes :: "string option"

type_synonym file_system = "string \<rightharpoonup> image_file"

text \<open>
  One round of the loop over \<open>images\<close>; the state is \<open>valid_images\<close> and
  \<open>seen_hashes\<close>.  \<open>md5\<close> is \<open>hashlib.md5(...).hexdigest()\<close>.  The aspect ratio is
  the quotient of the two integers as a real number; the height is at least 150
  where it is computed.
\<close>

definition image_step ::
    "file_system \<Rightarrow> (string \<Rightarrow> string) \<Rightarrow> string list \<times> string set \<Rightarrow> string
       \<Rightarrow> string list \<times> string set" where
  "image_step fs md5 st img_path =
     (let (valid_images, seen_hashes) = st
      in case fs img_path of
           None \<Rightarrow> st
         | Some f \<Rightarrow>
             (case img_size f of
                None \<Rightarrow> st
              | Some (width, height) \<Rightarrow>
                  if width < 150 \<or> height < 150 then st
                  else let aspect_ratio = real_of_int width / real_of_int height
                       in if aspect_ratio > 5 \<or> aspect_ratio < 2 / 10 then st
                          else (case img_bytes f of
                                  None \<Rightarrow> st
                                | Some bytes \<Rightarrow>
                                    let file_hash = md5 bytes
                                    in if file_hash \<in> seen_hashes then st
                                       else (valid_images @ [img_path],
                                             insert file_hash seen_hashes))))"

fun image_loop ::
    "file_system \<Rightarrow> (string \<Rightarrow> string) \<Rightarrow> string list \<times> string set \<Rightarrow> string list
       \<Rightarrow> string list \<times> string set" where
  "image_loop fs md5 st [] = st"
| "image_loop fs md5 st (img_path # rest) = image_loop fs md5 (image_step fs md5 st img_path) rest"

text \<open>\<open>render_images\<close>: the list \<open>valid_images\<close> that is displayed.\<close>

definition render_images :: "file_system \<Rightarrow> (string \<Rightarrow> string) \<Rightarrow> string list \<Rightarrow> string list" where
  "render_images fs md5 images =
     (if images = [] then [] else fst (image_loop fs md5 ([], {}) images))"

section \<open>Notions the properties are stated with\<close>

text \<open>
  A list of results is in non-increasing score order when, for any two results
  that both carry a score, the later one's score is not above the earlier one's.
\<close>

definition score_ge :: "node_with_score \<Rightarrow> node_with_score \<Rightarrow> bool" where
  "score_ge a b = (case (score a, score b) of (Some x, Some y) \<Rightarrow> y \<le> x | _ \<Rightarrow> True)"

definition non_increasing :: "node_with_score list \<Rightarrow> bool" where
  "non_increasing ns = sorted_wrt score_ge ns"

text \<open>A scored node with a content type, for the examples.\<close>

definition mk_node :: "string \<Rightarrow> string \<Rightarrow> real \<Rightarrow> node_with_score" where
  "mk_node t ct sc =
     \<lparr> node = \<lparr> node_text = t, metadata = [''content_type'' \<mapsto> PStr ct] \<rparr>, score = Some sc \<rparr>"

text \<open>The content hash of the file at a path, where the file exists and can be read.\<close>

definition image_hash :: "file_system \<Rightarrow> (string \<Rightarrow> string) \<Rightarrow> string \<Rightarrow> string option" where
  "image_hash fs md5 p = (case fs p of None \<Rightarrow> None | Some f \<Rightarrow> map_option md5 (img_bytes f))"








text \<open>Example files.\<close>

definition example_files :: file_system where
  "example_files =
     [''a.png'' \<mapsto> \<lparr> img_size = Some (300, 300), img_bytes = Some ''AAAA'' \<rparr>,
      ''icon.png'' \<mapsto> \<lparr> img_size = Some (100, 100), img_bytes = Some ''BBBB'' \<rparr>,
      ''copy.png'' \<mapsto> \<lparr> img_size = Some (300, 300), img_bytes = Some ''AAAA'' \<rparr>]"

text \<open>
  Two example image maps, as \<open>json.dumps\<close> writes them (the page keys become
  strings), what \<open>json.loads\<close> and \<open>int\<close> give on the example strings, and one
  chunk of each paper.
\<close>

definition quoted :: "string \<Rightarrow> string" where
  "quoted s = [CHR 0x22] @ s @ [CHR 0x22]"

definition paper_a_image_map :: string where
  "paper_a_image_map =
     ''{'' @ quoted ''2'' @ '': ['' @ quoted ''a2.png'' @ ''], ''
           @ quoted ''4'' @ '': ['' @ quoted ''a4.png'' @ ''], ''
           @ quoted ''5'' @ '': ['' @ quoted ''a5.png'' @ ''], ''
           @ quoted ''6'' @ '': ['' @ quoted ''a6.png'' @ '', '' @ quoted ''a5.png'' @ '']}''"

definition paper_b_image_map :: string where
  "paper_b_image_map =
     ''{'' @ quoted ''3'' @ '': ['' @ quoted ''b3.png'' @ ''], ''
           @ quoted ''9'' @ '': ['' @ quoted ''b9.png'' @ '']}''"

definition example_loads :: "string \<Rightarrow> (string \<rightharpoonup> string list) option" where
  "example_loads js =
     (if js = paper_a_image_map
      then Some [''2'' \<mapsto> [''a2.png''], ''4'' \<mapsto> [''a4.png''], ''5'' \<mapsto> [''a5.png''],
                 ''6'' \<mapsto> [''a6.png'', ''a5.png'']]
      else if js = paper_b_image_map
      then Some [''3'' \<mapsto> [''b3.png''], ''9'' \<mapsto> [''b9.png'']]
      else None)"

definition example_int :: "string \<Rightarrow> int option" where
  "example_int s = (if s = ''5'' then Some 5 else if s = ''8'' then Some 8 else None)"

definition chunk_a :: node_with_score where
  "chunk_a =
     \<lparr> node = \<lparr> node_text = ''Results'',
                metadata = [''page_label'' \<mapsto> PStr ''5'', ''page_num'' \<mapsto> PStr ''5'',
                            ''image_map'' \<mapsto> PStr paper_a_image_map] \<rparr>,
       score = Some (8 / 10) \<rparr>"

definition chunk_b :: node_with_score where
  "chunk_b =
     \<lparr> node = \<lparr> node_text = ''Method'',
                metadata = [''page_label'' \<mapsto> PStr ''8'', ''page_num'' \<mapsto> PStr ''8'',
                            ''image_map'' \<mapsto> PStr paper_b_image_map] \<rparr>,
       score = Some (7 / 10) \<rparr>"

declare str_nat.simps [simp del]
declare finditer_from.simps [simp del]
declare re_sub.simps [simp del]
declare ms.simps(6) [simp del]

section \<open>The retriever: order, size and cutoff\<close>

lemma py_slice_to_nonneg: "0 \<le> n \<Longrightarrow> py_slice_to xs n = take (nat n) xs"
  by (simp add: py_slice_to_def py_slice_def slice_bound_def min_def)

lemma retrieve_unfold:
  "0 \<le> rerank_top_n self \<Longrightarrow>
   retrieve self query cts =
     take (nat (rerank_top_n self))
       (case cts of None \<Rightarrow> postprocess_nodes (similarity_cutoff self) (index_retrieve self query)
        | Some c \<Rightarrow> if c \<noteq> [] then filter (content_type_in c) (postprocess_nodes (similarity_cutoff self) (index_retrieve self query))
                    else postprocess_nodes (similarity_cutoff self) (index_retrieve self query))"
  by (simp add: retrieve_def py_slice_to_nonneg Let_def)

lemma retrieve_subset:
  "set (retrieve self query cts) \<subseteq> set (postprocess_nodes (similarity_cutoff self) (index_retrieve self query))"
  unfolding retrieve_def py_slice_to_def py_slice_def Let_def
  by (auto split: option.splits dest!: in_set_takeD in_set_dropD)

text \<open>
  Claim C3.  For every query whose candidates come from the index in non-increasing score
  order, and a top-N that is not negative, \<open>retrieve\<close> returns a list in non-increasing
  score order in which every result has a score, of length at most
  \<open>rerank_top_n\<close>, with or without a content-type filter.
\<close>

theorem retrieve_sorted_top_n:
  assumes "non_increasing (index_retrieve self query)" and "0 \<le> rerank_top_n self"
  shows "non_increasing (retrieve self query content_types)
       \<and> (\<forall>n \<in> set (retrieve self query content_types). \<exists>sc. score n = Some sc)
       \<and> int (length (retrieve self query content_types)) \<le> rerank_top_n self"
proof -
  let ?pp = "postprocess_nodes (similarity_cutoff self) (index_retrieve self query)"
  have pp: "sorted_wrt score_ge ?pp"
    using assms(1) by (simp add: non_increasing_def postprocess_nodes_def sorted_wrt_filter)
  have "non_increasing (retrieve self query content_types)"
    using pp assms(2)
    by (auto simp: retrieve_unfold non_increasing_def sorted_wrt_filter sorted_wrt_take split: option.splits)
  moreover have "\<forall>n \<in> set (retrieve self query content_types). \<exists>sc. score n = Some sc"
    using retrieve_subset[of self query content_types]
    by (auto simp: postprocess_nodes_def split: option.splits)
  moreover have "int (length (retrieve self query content_types)) \<le> rerank_top_n self"
    using assms(2) by (simp add: retrieve_unfold)
  ultimately show ?thesis by blast
qed

theorem retrieve_sorted_top_n_witness:
  "non_increasing [mk_node ''a'' ''text'' (9/10), mk_node ''b'' ''table'' (8/10), mk_node ''c'' ''text'' (7/10), mk_node ''d'' ''text'' (6/10), mk_node ''e'' ''text'' (4/10)]
   \<and> (0::int) \<le> 3
   \<and> map score (retrieve (default_retriever (\<lambda>q. [mk_node ''a'' ''text'' (9/10), mk_node ''b'' ''table'' (8/10), mk_node ''c'' ''text'' (7/10), mk_node ''d'' ''text'' (6/10), mk_node ''e'' ''text'' (4/10)])) ''q'' (Some [''text''])) = [Some (9/10), Some (7/10), Some (6/10)]
   \<and> non_increasing (retrieve (default_retriever (\<lambda>q. [mk_node ''a'' ''text'' (9/10), mk_node ''b'' ''table'' (8/10), mk_node ''c'' ''text'' (7/10), mk_node ''d'' ''text'' (6/10), mk_node ''e'' ''text'' (4/10)])) ''q'' (Some [''text'']))
   \<and> int (length (retrieve (default_retriever (\<lambda>q. [mk_node ''a'' ''text'' (9/10), mk_node ''b'' ''table'' (8/10), mk_node ''c'' ''text'' (7/10), mk_node ''d'' ''text'' (6/10), mk_node ''e'' ''text'' (4/10)])) ''q'' (Some [''text'']))) \<le> 3"
proof -
  let ?c = "[mk_node ''a'' ''text'' (9/10), mk_node ''b'' ''table'' (8/10), mk_node ''c'' ''text'' (7/10), mk_node ''d'' ''text'' (6/10), mk_node ''e'' ''text'' (4/10)]"
  let ?r = "default_retriever (\<lambda>q. ?c)"
  have h1: "non_increasing (index_retrieve ?r ''q'')"
    by (simp add: default_retriever_def scientific_retriever_init_def non_increasing_def score_ge_def mk_node_def)
  have h2: "0 \<le> rerank_top_n ?r"
    by (simp add: default_retriever_def scientific_retriever_init_def RERANK_TOP_N_def)
  have v: "map score (retrieve ?r ''q'' (Some [''text''])) = [Some (9/10), Some (7/10), Some (6/10)]"
    by (simp add: retrieve_def default_retriever_def scientific_retriever_init_def RERANK_TOP_N_def
        postprocess_nodes_def content_type_in_def md_get_default_def mk_node_def
        py_slice_to_def py_slice_def slice_bound_def)
  have n3: "rerank_top_n ?r = 3"
    by (simp add: default_retriever_def scientific_retriever_init_def RERANK_TOP_N_def)
  from retrieve_sorted_top_n[OF h1 h2, of "Some [''text'']"] h1 v n3 show ?thesis
    by (simp add: default_retriever_def scientific_retriever_init_def)
qed

text \<open>
  Claim C4.  When every scored candidate of a query is below the cutoff 0.5, \<open>retrieve\<close>
  returns the empty list, and \<open>format_context_for_llm\<close> of that list is the empty
  string.
\<close>

theorem retrieve_below_cutoff_empty:
  assumes "\<forall>n \<in> set (idx query). \<forall>sc. score n = Some sc \<longrightarrow> sc < 1 / 2"
  shows "retrieve (scientific_retriever_init idx top_k top_n) query content_types = []
       \<and> format_context_for_llm (retrieve (scientific_retriever_init idx top_k top_n) query content_types) = []"
proof -
  have "postprocess_nodes (1 / 2) (idx query) = []"
    using assms by (auto simp: postprocess_nodes_def filter_empty_conv split: option.splits)
  then have "retrieve (scientific_retriever_init idx top_k top_n) query content_types = []"
    by (simp add: retrieve_def scientific_retriever_init_def py_slice_to_def py_slice_def
        split: option.splits)
  then show ?thesis by (simp add: format_context_for_llm_def)
qed

theorem retrieve_below_cutoff_empty_witness:
  "map score [mk_node ''a'' ''text'' (42/100), mk_node ''b'' ''table'' (3/10)] = [Some (42/100), Some (3/10)]
   \<and> (42/100 :: real) < 1 / 2 \<and> (3/10 :: real) < 1 / 2
   \<and> retrieve (default_retriever (\<lambda>q. [mk_node ''a'' ''text'' (42/100), mk_node ''b'' ''table'' (3/10)])) ''q'' None = []
   \<and> format_context_for_llm (retrieve (default_retriever (\<lambda>q. [mk_node ''a'' ''text'' (42/100), mk_node ''b'' ''table'' (3/10)])) ''q'' None) = []"
  using retrieve_below_cutoff_empty
          [of "\<lambda>q. [mk_node ''a'' ''text'' (42/100), mk_node ''b'' ''table'' (3/10)]" "''q''"
              SIMILARITY_TOP_K RERANK_TOP_N None]
  by (simp add: default_retriever_def mk_node_def format_context_for_llm_def)

text \<open>
  Claim C10.  \<open>retrieve\<close> with the empty list of content types returns what it returns
  with \<open>None\<close>: no filter is applied.
\<close>

theorem retrieve_empty_content_types:
  "retrieve self query (Some []) = retrieve self query None"
  by (simp add: retrieve_def)

section \<open>The chat engine: greetings, credentials, citations, images\<close>

lemma clean_hi: "clean_msg ''hi'' = ''hi''"
  by (simp add: clean_msg_def strip_def strip_chars_def lower_def lower_char_def is_space_def)

lemma clean_thanks: "clean_msg ''thanks'' = ''thanks''"
  by (simp add: clean_msg_def strip_def strip_chars_def lower_def lower_char_def is_space_def)

lemma mock_fields:
  "response (mock_streaming_response_init txt) = txt"
  "source_nodes (mock_streaming_response_init txt) = []"
  by (simp_all add: mock_streaming_response_init_def)

lemma hello_tokens:
  "response_gen (mock_streaming_response_init ''Hello! How can I help you with your scientific papers today?'') =
     [''Hello! '', ''How '', ''can '', ''I '', ''help '', ''you '', ''with '',
      ''your '', ''scientific '', ''papers '', ''today?'']"
  by code_simp

lemma welcome_tokens:
  "response_gen (mock_streaming_response_init
      (''You'' @ [CHR 0x27] @ ''re welcome! Let me know if you have more questions about the papers.'')) =
     [''You'' @ [CHR 0x27] @ ''re '', ''welcome! '', ''Let '', ''me '', ''know '', ''if '',
      ''you '', ''have '', ''more '', ''questions '', ''about '', ''the '', ''papers.'']"
  by code_simp

lemma mock_eq:
  "(m :: mock_streaming_response) = \<lparr> response = a, response_gen = b, source_nodes = c \<rparr>
     \<longleftrightarrow> response m = a \<and> response_gen m = b \<and> source_nodes m = c"
  by (cases m) simp

text \<open>
  Claim C7.  The turns \<open>hi\<close> and then \<open>thanks\<close> each get the fixed reply of the greeting
  branch: the response text, the tokens it is streamed as, and no source nodes.  This
  holds whatever the collaborator is, and the collaborator's state after the two
  turns is the state before them: it is not called.
\<close>

theorem greetings_bypass_engine:
  "stream_chat chat_engine_stream st ''hi'' =
     (Mock \<lparr> response = ''Hello! How can I help you with your scientific papers today?'',
             response_gen = [''Hello! '', ''How '', ''can '', ''I '', ''help '', ''you '', ''with '',
                             ''your '', ''scientific '', ''papers '', ''today?''],
             source_nodes = [] \<rparr>, st)
   \<and> stream_chat chat_engine_stream (snd (stream_chat chat_engine_stream st ''hi'')) ''thanks'' =
     (Mock \<lparr> response = ''You'' @ [CHR 0x27] @ ''re welcome! Let me know if you have more questions about the papers.'',
             response_gen = [''You'' @ [CHR 0x27] @ ''re '', ''welcome! '', ''Let '', ''me '', ''know '', ''if '',
                             ''you '', ''have '', ''more '', ''questions '', ''about '', ''the '', ''papers.''],
             source_nodes = [] \<rparr>, st)"
proof -
  have s1: "stream_chat chat_engine_stream st ''hi'' =
     (Mock (mock_streaming_response_init ''Hello! How can I help you with your scientific papers today?''), st)"
    by (simp add: stream_chat_def clean_hi greetings_def Let_def)
  have s2: "stream_chat chat_engine_stream st ''thanks'' =
     (Mock (mock_streaming_response_init (''You'' @ [CHR 0x27] @ ''re welcome! Let me know if you have more questions about the papers.'')), st)"
    by (simp add: stream_chat_def clean_thanks greetings_def Let_def)
  show ?thesis
    unfolding s1 snd_conv s2
    by (simp only: prod.inject streaming_response.inject mock_eq mock_fields hello_tokens welcome_tokens simp_thms)
qed

text \<open>
  Claim C9.  With no key in the configuration and none in the environment the constructor
  returns the \<open>ValueError\<close>; it fails exactly when neither holds a non-empty key,
  and an engine that was built holds a non-empty key.
\<close>

theorem missing_key_fails_at_construction:
  "scientific_chat_engine_init None None idx model temp top_k =
     Inl (ValueError ''GROQ_API_KEY not found! Get a FREE key at https://console.groq.com/keys'')
   \<and> ((\<exists>e. scientific_chat_engine_init config_key env_key idx model temp top_k = Inl e)
        = (\<not> str_truthy config_key \<and> \<not> str_truthy env_key))
   \<and> (\<forall>eng. scientific_chat_engine_init config_key env_key idx model temp top_k = Inr eng
          \<longrightarrow> llm_api_key eng \<noteq> [])"
  by (auto simp: scientific_chat_engine_init_def str_truthy_def Let_def split: option.splits)

theorem missing_key_fails_at_construction_witness:
  "scientific_chat_engine_init (None :: string option) (Some ''gsk_k'') (0::nat) LLM_MODEL LLM_TEMPERATURE SIMILARITY_TOP_K
     = Inr \<lparr> index = 0, llm_api_key = ''gsk_k'', llm_model = LLM_MODEL, llm_temperature = LLM_TEMPERATURE,
             memory_token_limit = 4000, engine_top_k = SIMILARITY_TOP_K \<rparr>
   \<and> llm_api_key \<lparr> index = (0::nat), llm_api_key = ''gsk_k'', llm_model = LLM_MODEL, llm_temperature = LLM_TEMPERATURE,
             memory_token_limit = 4000, engine_top_k = SIMILARITY_TOP_K \<rparr> \<noteq> []"
  using missing_key_fails_at_construction [of "0::nat" LLM_MODEL LLM_TEMPERATURE SIMILARITY_TOP_K None "Some ''gsk_k''"]
  by (simp add: scientific_chat_engine_init_def str_truthy_def)

text \<open>
  Claim C8.  A source node whose score is 0.0 gets a citation record whose score is \<open>None\<close>,
  where rounding to three decimals gives 0.0.
\<close>

theorem zero_score_citation_has_no_score:
  "map cite_score (fst (extract_sources_and_images loads int_str
      (Some [\<lparr> node = \<lparr> node_text = ''abc'', metadata = Map.empty \<rparr>, score = Some 0 \<rparr>]) message)) = [None]
   \<and> Some (py_round3 0) = Some 0"
  by (simp add: extract_sources_and_images_def source_record_def py_round3_def round_half_even_def)

text \<open>The other fields of a citation record, and the score where it is not zero.\<close>

lemma source_record_fields:
  "source (source_record n) = md_get_default (metadata (node n)) ''source'' (PStr ''Unknown'')"
  "content_type (source_record n) = md_get_default (metadata (node n)) ''content_type'' (PStr ''text'')"
  "text_preview (source_record n) =
     (if length (node_text (node n)) > 200 then take 200 (node_text (node n)) @ ''...'' else node_text (node n))"
  "score n = Some sc \<Longrightarrow> sc \<noteq> 0 \<Longrightarrow> cite_score (source_record n) = Some (py_round3 sc)"
  "score n = None \<Longrightarrow> cite_score (source_record n) = None"
  by (simp_all add: source_record_def)

lemma set_unique_images: "set (unique_images acc xs) = set acc \<union> set xs"
  by (induction xs arbitrary: acc) auto

lemma distinct_unique_images: "distinct acc \<Longrightarrow> distinct (unique_images acc xs)"
  by (induction xs arbitrary: acc) auto

lemma node_images_window:
  "set (node_images loads int_str message md) =
     {x. should_extract_images message \<and>
         (\<exists>js image_map P.
             md ''image_map'' = Some (PStr js) \<and> loads js = Some image_map
           \<and> current_page int_str md = Some P \<and> P \<noteq> 0
           \<and> (\<exists>q \<in> {P - 1, P, P + 1}. \<exists>l. image_map (str_int q) = Some l \<and> x \<in> set l))}"
proof (cases "should_extract_images message")
  case False
  then show ?thesis by (simp add: node_images_def)
next
  case g: True
  show ?thesis
  proof (cases "md ''image_map''")
    case None
    then show ?thesis by (simp add: node_images_def)
  next
    case (Some v)
    show ?thesis
    proof (cases v)
      case (PStr js)
      show ?thesis
      proof (cases "loads js")
        case None
        then show ?thesis using g Some PStr by (simp add: node_images_def)
      next
        case m: (Some image_map)
        show ?thesis
        proof (cases "current_page int_str md")
          case None
          then show ?thesis using g Some PStr m by (simp add: node_images_def)
        next
          case p: (Some P)
          show ?thesis
          proof (cases "P = 0")
            case True
            then show ?thesis using g Some PStr m p by (simp add: node_images_def)
          next
            case False
            then show ?thesis using g Some PStr m p
              by (auto simp: node_images_def split: option.splits)
          qed
        qed
      qed
    next
      case (PInt i)
      then show ?thesis using g Some by (simp add: node_images_def)
    next
      case PNone
      then show ?thesis using g Some by (simp add: node_images_def)
    qed
  qed
qed

text \<open>
  Claim C5.  For any list of source nodes, the images returned are exactly these: with a
  visual keyword in the message, for each node that has a decodable image map and
  a page \<open>P\<close> (not 0; pages are numbered from 1), the images the node's map lists under
  the keys of \<open>P - 1\<close>, \<open>P\<close> and \<open>P + 1\<close>.  Each image is returned once.
\<close>

theorem images_page_window:
  "set (snd (extract_sources_and_images loads int_str (Some ns) message)) =
     {x. should_extract_images message \<and>
         (\<exists>n \<in> set ns. \<exists>js image_map P.
             metadata (node n) ''image_map'' = Some (PStr js) \<and> loads js = Some image_map
           \<and> current_page int_str (metadata (node n)) = Some P \<and> P \<noteq> 0
           \<and> (\<exists>q \<in> {P - 1, P, P + 1}. \<exists>l. image_map (str_int q) = Some l \<and> x \<in> set l))}
   \<and> distinct (snd (extract_sources_and_images loads int_str (Some ns) message))"
proof
  have "set (snd (extract_sources_and_images loads int_str (Some ns) message)) =
          (\<Union>n \<in> set ns. set (node_images loads int_str message (metadata (node n))))"
    by (simp add: extract_sources_and_images_def set_unique_images)
  also have "\<dots> = {x. should_extract_images message \<and>
         (\<exists>n \<in> set ns. \<exists>js image_map P.
             metadata (node n) ''image_map'' = Some (PStr js) \<and> loads js = Some image_map
           \<and> current_page int_str (metadata (node n)) = Some P \<and> P \<noteq> 0
           \<and> (\<exists>q \<in> {P - 1, P, P + 1}. \<exists>l. image_map (str_int q) = Some l \<and> x \<in> set l))}"
    unfolding node_images_window by blast
  finally show "set (snd (extract_sources_and_images loads int_str (Some ns) message)) =
     {x. should_extract_images message \<and>
         (\<exists>n \<in> set ns. \<exists>js image_map P.
             metadata (node n) ''image_map'' = Some (PStr js) \<and> loads js = Some image_map
           \<and> current_page int_str (metadata (node n)) = Some P \<and> P \<noteq> 0
           \<and> (\<exists>q \<in> {P - 1, P, P + 1}. \<exists>l. image_map (str_int q) = Some l \<and> x \<in> set l))}" .
  show "distinct (snd (extract_sources_and_images loads int_str (Some ns) message))"
    by (simp add: extract_sources_and_images_def distinct_unique_images)
qed

lemma str_int_examples:
  "str_int 4 = ''4''" "str_int 5 = ''5''" "str_int 6 = ''6''"
  "str_int 7 = ''7''" "str_int 8 = ''8''" "str_int 9 = ''9''"
  by code_simp+

lemma example_maps_differ: "paper_b_image_map \<noteq> paper_a_image_map"
  by (simp add: paper_a_image_map_def paper_b_image_map_def quoted_def)

theorem images_page_window_witness:
  "snd (extract_sources_and_images example_loads example_int (Some [chunk_a, chunk_b]) ''Show me the plot'')
       = [''a5.png'', ''a4.png'', ''a6.png'', ''b9.png'']
   \<and> set (snd (extract_sources_and_images example_loads example_int (Some [chunk_a, chunk_b]) ''Show me the plot'')) =
     {x. should_extract_images ''Show me the plot'' \<and>
         (\<exists>n \<in> set [chunk_a, chunk_b]. \<exists>js image_map P.
             metadata (node n) ''image_map'' = Some (PStr js) \<and> example_loads js = Some image_map
           \<and> current_page example_int (metadata (node n)) = Some P \<and> P \<noteq> 0
           \<and> (\<exists>q \<in> {P - 1, P, P + 1}. \<exists>l. image_map (str_int q) = Some l \<and> x \<in> set l))}
   \<and> distinct (snd (extract_sources_and_images example_loads example_int (Some [chunk_a, chunk_b]) ''Show me the plot''))"
proof -
  have h1: "should_extract_images ''Show me the plot''"
    by (simp add: should_extract_images_def figure_keywords_def lower_def lower_char_def)
  have a: "node_images example_loads example_int ''Show me the plot'' (metadata (node chunk_a))
             = [''a5.png'', ''a4.png'', ''a6.png'', ''a5.png'']"
    using h1
    by (simp add: node_images_def chunk_a_def example_loads_def current_page_def example_int_def str_int_examples)
  have b: "node_images example_loads example_int ''Show me the plot'' (metadata (node chunk_b)) = [''b9.png'']"
    using h1
    by (simp add: node_images_def chunk_b_def example_loads_def example_maps_differ current_page_def example_int_def
        str_int_examples)
  have v: "snd (extract_sources_and_images example_loads example_int (Some [chunk_a, chunk_b]) ''Show me the plot'')
             = [''a5.png'', ''a4.png'', ''a6.png'', ''b9.png'']"
    by (simp add: extract_sources_and_images_def a b)
  note t = images_page_window [of example_loads example_int "[chunk_a, chunk_b]" "''Show me the plot''"]
  from v t show ?thesis by blast
qed

section \<open>Image filtering\<close>

lemma image_loop_append:
  "image_loop fs md5 st (xs @ ys) = image_loop fs md5 (image_loop fs md5 st xs) ys"
  by (induction xs arbitrary: st) auto

lemma image_step_cases:
  "image_step fs md5 (v, s) p = (v, s) \<or>
   (\<exists>h. image_hash fs md5 p = Some h \<and> h \<notin> s \<and> image_step fs md5 (v, s) p = (v @ [p], insert h s)
      \<and> (\<exists>f w h'. fs p = Some f \<and> img_size f = Some (w, h') \<and> 150 \<le> w \<and> 150 \<le> h'))"
  by (auto simp: image_step_def image_hash_def Let_def split: option.splits prod.splits)

lemma image_loop_extends:
  "\<exists>rest s'. image_loop fs md5 (v, s) xs = (v @ rest, s')
     \<and> (\<forall>q \<in> set rest. \<exists>h. image_hash fs md5 q = Some h \<and> h \<notin> s)
     \<and> (\<forall>q \<in> set rest. \<exists>f w h'. fs q = Some f \<and> img_size f = Some (w, h') \<and> 150 \<le> w \<and> 150 \<le> h')
     \<and> s' = s \<union> {h. \<exists>q \<in> set rest. image_hash fs md5 q = Some h}"
proof (induction xs arbitrary: v s)
  case Nil
  then show ?case by simp
next
  case (Cons p xs)
  from image_step_cases[of fs md5 v s p] show ?case
  proof
    assume "image_step fs md5 (v, s) p = (v, s)"
    with Cons.IH[of v s] show ?thesis by simp
  next
    assume "\<exists>h. image_hash fs md5 p = Some h \<and> h \<notin> s \<and> image_step fs md5 (v, s) p = (v @ [p], insert h s)
      \<and> (\<exists>f w h'. fs p = Some f \<and> img_size f = Some (w, h') \<and> 150 \<le> w \<and> 150 \<le> h')"
    then obtain h where h: "image_hash fs md5 p = Some h" "h \<notin> s"
      "image_step fs md5 (v, s) p = (v @ [p], insert h s)"
      "\<exists>f w h'. fs p = Some f \<and> img_size f = Some (w, h') \<and> 150 \<le> w \<and> 150 \<le> h'" by blast
    from Cons.IH[of "v @ [p]" "insert h s"] obtain rest s' where
      r: "image_loop fs md5 (v @ [p], insert h s) xs = ((v @ [p]) @ rest, s')"
         "\<forall>q \<in> set rest. \<exists>h'. image_hash fs md5 q = Some h' \<and> h' \<notin> insert h s"
         "\<forall>q \<in> set rest. \<exists>f w h'. fs q = Some f \<and> img_size f = Some (w, h') \<and> 150 \<le> w \<and> 150 \<le> h'"
         "s' = insert h s \<union> {h. \<exists>q \<in> set rest. image_hash fs md5 q = Some h}" by blast
    have "image_loop fs md5 (v, s) (p # xs) = (v @ (p # rest), s')"
      using h(3) r(1) by simp
    moreover have "\<forall>q \<in> set (p # rest). \<exists>h. image_hash fs md5 q = Some h \<and> h \<notin> s"
      using h(1,2) r(2) by auto
    moreover have "\<forall>q \<in> set (p # rest). \<exists>f w h'. fs q = Some f \<and> img_size f = Some (w, h') \<and> 150 \<le> w \<and> 150 \<le> h'"
      using h(4) r(3) by auto
    moreover have "s' = s \<union> {h. \<exists>q \<in> set (p # rest). image_hash fs md5 q = Some h}"
      using h(1) r(4) by auto
    ultimately show ?thesis by blast
  qed
qed

lemma render_images_loop: "render_images fs md5 images = fst (image_loop fs md5 ([], {}) images)"
  by (simp add: render_images_def)

lemma render_images_state:
  "\<exists>v s'. image_loop fs md5 ([], {}) images = (v, s') \<and> render_images fs md5 images = v
     \<and> s' = {h. \<exists>q \<in> set v. image_hash fs md5 q = Some h}
     \<and> (\<forall>q \<in> set v. \<exists>f w h'. fs q = Some f \<and> img_size f = Some (w, h') \<and> 150 \<le> w \<and> 150 \<le> h')"
  using image_loop_extends[of fs md5 "[]" "{}" images]
  by (auto simp: render_images_loop)

text \<open>
  Claim C6.  A readable image of 100 by 100 pixels is never displayed.  A readable image of
  300 by 300 pixels is displayed where no image accepted before it has its content
  hash, and no later image with that hash is displayed; where an accepted image
  before it has the same hash, it is dropped.
\<close>

theorem image_filter_size_and_hash:
  assumes "fs small = Some g" and "img_size g = Some (100, 100)"
    and "fs p = Some f" and "img_size f = Some (300, 300)" and "img_bytes f = Some bytes"
  shows "small \<notin> set (render_images fs md5 images)
       \<and> ((\<forall>q \<in> set (render_images fs md5 pre). image_hash fs md5 q \<noteq> Some (md5 bytes))
          \<longrightarrow> (\<exists>rest. render_images fs md5 (pre @ p # post) = render_images fs md5 pre @ p # rest
                  \<and> (\<forall>q \<in> set rest. image_hash fs md5 q \<noteq> Some (md5 bytes))))
       \<and> ((\<exists>q \<in> set (render_images fs md5 pre'). image_hash fs md5 q = Some (md5 bytes))
          \<longrightarrow> render_images fs md5 (pre' @ p # post') = render_images fs md5 (pre' @ post'))"
proof -
  have small: "small \<notin> set (render_images fs md5 images)"
    using assms(1,2) render_images_state[of fs md5 images] by fastforce
  have first: "\<exists>rest. render_images fs md5 (pre @ p # post) = render_images fs md5 pre @ p # rest
                  \<and> (\<forall>q \<in> set rest. image_hash fs md5 q \<noteq> Some (md5 bytes))"
    if a: "\<forall>q \<in> set (render_images fs md5 pre). image_hash fs md5 q \<noteq> Some (md5 bytes)"
  proof -
    obtain v s where loop: "image_loop fs md5 ([], {}) pre = (v, s)"
      and v: "render_images fs md5 pre = v"
      and s: "s = {h. \<exists>q \<in> set v. image_hash fs md5 q = Some h}"
      using render_images_state[of fs md5 pre] by blast
    have notin: "md5 bytes \<notin> s" using a s v by auto
    have step: "image_step fs md5 (v, s) p = (v @ [p], insert (md5 bytes) s)"
      using assms(3,4,5) notin by (simp add: image_step_def)
    obtain rest s' where r:
      "image_loop fs md5 (v @ [p], insert (md5 bytes) s) post = ((v @ [p]) @ rest, s')"
      "\<forall>q \<in> set rest. \<exists>h. image_hash fs md5 q = Some h \<and> h \<notin> insert (md5 bytes) s"
      using image_loop_extends[of fs md5 "v @ [p]" "insert (md5 bytes) s" post] by blast
    have "render_images fs md5 (pre @ p # post) = v @ p # rest"
      by (simp add: render_images_loop image_loop_append loop step r(1))
    moreover have "\<forall>q \<in> set rest. image_hash fs md5 q \<noteq> Some (md5 bytes)"
      using r(2) by auto
    ultimately show ?thesis unfolding v by blast
  qed
  have later: "render_images fs md5 (pre' @ p # post') = render_images fs md5 (pre' @ post')"
    if a: "\<exists>q \<in> set (render_images fs md5 pre'). image_hash fs md5 q = Some (md5 bytes)"
  proof -
    obtain v s where loop: "image_loop fs md5 ([], {}) pre' = (v, s)"
      and v: "render_images fs md5 pre' = v"
      and s: "s = {h. \<exists>q \<in> set v. image_hash fs md5 q = Some h}"
      using render_images_state[of fs md5 pre'] by blast
    have "md5 bytes \<in> s" using a s v by auto
    then have "image_step fs md5 (v, s) p = (v, s)"
      using assms(3,4,5) by (simp add: image_step_def)
    then show ?thesis
      by (simp add: render_images_loop image_loop_append loop)
  qed
  show ?thesis using small first later by blast
qed

theorem image_filter_size_and_hash_witness:
  "example_files ''icon.png'' = Some \<lparr> img_size = Some (100, 100), img_bytes = Some ''BBBB'' \<rparr>
   \<and> example_files ''copy.png'' = Some \<lparr> img_size = Some (300, 300), img_bytes = Some ''AAAA'' \<rparr>
   \<and> ''icon.png'' \<notin> set (render_images example_files id [''icon.png'', ''a.png''])
   \<and> render_images example_files id [''icon.png''] = []
   \<and> (\<exists>rest. render_images example_files id ([''icon.png''] @ ''copy.png'' # [''a.png''])
               = render_images example_files id [''icon.png''] @ ''copy.png'' # rest
             \<and> (\<forall>q \<in> set rest. image_hash example_files id q \<noteq> Some (id ''AAAA'')))
   \<and> (\<exists>q \<in> set (render_images example_files id [''a.png'']). image_hash example_files id q = Some (id ''AAAA''))
   \<and> render_images example_files id ([''a.png''] @ ''copy.png'' # [''icon.png''])
       = render_images example_files id ([''a.png''] @ [''icon.png''])"
proof -
  have h1: "example_files ''icon.png'' = Some \<lparr> img_size = Some (100, 100), img_bytes = Some ''BBBB'' \<rparr>"
    by (simp add: example_files_def)
  have h2: "img_size \<lparr> img_size = Some (100, 100), img_bytes = Some ''BBBB'' \<rparr> = Some (100, 100)"
    by simp
  have h3: "example_files ''copy.png'' = Some \<lparr> img_size = Some (300, 300), img_bytes = Some ''AAAA'' \<rparr>"
    by (simp add: example_files_def)
  have h4: "img_size \<lparr> img_size = Some (300, 300), img_bytes = Some ''AAAA'' \<rparr> = Some (300, 300)"
    by simp
  have h5: "img_bytes \<lparr> img_size = Some (300, 300), img_bytes = Some ''AAAA'' \<rparr> = Some ''AAAA''"
    by simp
  have r1: "render_images example_files id [''icon.png''] = []"
    by (simp add: render_images_def image_step_def example_files_def)
  have r2: "render_images example_files id [''a.png''] = [''a.png'']"
    by (simp add: render_images_def image_step_def example_files_def)
  have ha: "image_hash example_files id ''a.png'' = Some ''AAAA''"
    by (simp add: image_hash_def example_files_def)
  have p1: "\<forall>q \<in> set (render_images example_files id [''icon.png'']). image_hash example_files id q \<noteq> Some (id ''AAAA'')"
    by (simp add: r1)
  have p2: "\<exists>q \<in> set (render_images example_files id [''a.png'']). image_hash example_files id q = Some (id ''AAAA'')"
    by (simp add: r2 ha)
  note t = image_filter_size_and_hash
         [of example_files "''icon.png''" "\<lparr> img_size = Some (100, 100), img_bytes = Some ''BBBB'' \<rparr>"
             "''copy.png''" "\<lparr> img_size = Some (300, 300), img_bytes = Some ''AAAA'' \<rparr>" "''AAAA''"
             id "[''icon.png'', ''a.png'']" "[''icon.png'']" "[''a.png'']" "[''a.png'']" "[''icon.png'']",
          OF h1 h2 h3 h4 h5]
  from t have c1: "''icon.png'' \<notin> set (render_images example_files id [''icon.png'', ''a.png''])"
    by (rule conjunct1)
  from t p1 have c2: "\<exists>rest. render_images example_files id ([''icon.png''] @ ''copy.png'' # [''a.png''])
               = render_images example_files id [''icon.png''] @ ''copy.png'' # rest
             \<and> (\<forall>q \<in> set rest. image_hash example_files id q \<noteq> Some (id ''AAAA''))"
    by blast
  from t p2 have c3: "render_images example_files id ([''a.png''] @ ''copy.png'' # [''icon.png''])
       = render_images example_files id ([''a.png''] @ [''icon.png''])"
    by blast
  from h1 h3 c1 r1 c2 p2 c3 show ?thesis by blast
qed

section \<open>Matching: general facts\<close>

lemma py_in_sublist: "py_in x s = sublist x s"
  by (induction s) (simp_all add: sublist_Cons_right)

lemma ms_suffix: "s' \<in> set (ms r s) \<Longrightarrow> suffix s' s"
proof (induction r s arbitrary: s' rule: ms.induct)
  case (1 P)
  then show ?case by simp
next
  case (2 P c cs)
  have "s' = cs" using "2.prems" by (simp split: if_splits)
  then show ?case by (simp add: suffix_ConsI)
next
  case (3 a b s)
  from "3.prems" obtain s1 where s1: "s1 \<in> set (ms a s)" "s' \<in> set (ms b s1)" by auto
  have a: "suffix s1 s" by (rule "3.IH"(1)[OF s1(1)])
  have b: "suffix s' s1" by (rule "3.IH"(2)[OF s1(1) s1(2)])
  from b a show ?case by (rule suffix_order.trans)
next
  case (4 a b s)
  from "4.prems" have "s' \<in> set (ms a s) \<or> s' \<in> set (ms b s)" by simp
  then show ?case
  proof
    assume "s' \<in> set (ms a s)"
    then show ?thesis by (rule "4.IH"(1))
  next
    assume "s' \<in> set (ms b s)"
    then show ?thesis by (rule "4.IH"(2))
  qed
next
  case (5 a s)
  from "5.prems" have "s' = s \<or> s' \<in> set (ms a s)" by simp
  then show ?case
  proof
    assume "s' = s"
    then show ?thesis by simp
  next
    assume "s' \<in> set (ms a s)"
    then show ?thesis by (rule "5.IH")
  qed
next
  case (6 a s)
  from "6.prems" have "\<exists>s1 \<in> set (ms a s).
      s' \<in> set ((if length s1 < length s then ms (Plus a) s1 else []) @ [s1])"
    by (subst (asm) ms.simps(6)) simp
  then obtain s1 where s1: "s1 \<in> set (ms a s)"
    "s' = s1 \<or> (length s1 < length s \<and> s' \<in> set (ms (Plus a) s1))"
    by (auto split: if_splits)
  have a: "suffix s1 s" by (rule "6.IH"(1)[OF s1(1)])
  from s1(2) show ?case
  proof
    assume "s' = s1"
    with a show ?thesis by simp
  next
    assume b: "length s1 < length s \<and> s' \<in> set (ms (Plus a) s1)"
    then have "suffix s' s1" using "6.IH"(2)[OF s1(1)] by blast
    then show ?thesis using a by (rule suffix_order.trans)
  qed
qed

lemma finditer_from_Nil: "finditer_from r k [] = []"
  by (subst finditer_from.simps) simp
lemma finditer_from_nomatch:
  "rx_match r (c # cs) = None \<Longrightarrow> finditer_from r k (c # cs) = finditer_from r (Suc k) cs"
  by (subst finditer_from.simps) simp
lemma finditer_from_match:
  "rx_match r s = Some n \<Longrightarrow> 0 < n \<Longrightarrow>
   finditer_from r k s = (k, take n s) # finditer_from r (k + n) (drop n s)"
proof -
  assume a: "rx_match r s = Some n" "0 < n"
  then have "s \<noteq> []" by (auto simp: rx_match_def split: list.splits)
  with a show ?thesis by (subst finditer_from.simps) simp
qed
lemma sub_Nil: "re_sub r repl [] = []"
  by (subst re_sub.simps) simp
lemma sub_nomatch: "rx_match r (c # cs) = None \<Longrightarrow> re_sub r repl (c # cs) = c # re_sub r repl cs"
  by (subst re_sub.simps) simp
lemma sub_match:
  "rx_match r s = Some n \<Longrightarrow> 0 < n \<Longrightarrow> re_sub r repl s = repl @ re_sub r repl (drop n s)"
proof -
  assume a: "rx_match r s = Some n" "0 < n"
  then have "s \<noteq> []" by (auto simp: rx_match_def split: list.splits)
  with a show ?thesis by (subst re_sub.simps) simp
qed






lemma finditer_from_skip:
  assumes "\<And>c cs. c \<in> set pre \<Longrightarrow> rx_match r (c # cs) = None"
  shows "finditer_from r k (pre @ t) = finditer_from r (k + length pre) t"
  using assms
proof (induction pre arbitrary: k)
  case Nil
  then show ?case by simp
next
  case (Cons c pre)
  have "rx_match r (c # (pre @ t)) = None" by (rule Cons.prems) simp
  then have "finditer_from r k ((c # pre) @ t) = finditer_from r (Suc k) (pre @ t)"
    by (simp add: finditer_from_nomatch)
  also have "\<dots> = finditer_from r (Suc k + length pre) t"
    by (rule Cons.IH) (simp add: Cons.prems)
  finally show ?case by simp
qed

lemma sub_skip:
  assumes "\<And>c cs. c \<in> set pre \<Longrightarrow> rx_match r (c # cs) = None"
  shows "re_sub r repl (pre @ t) = pre @ re_sub r repl t"
  using assms
proof (induction pre)
  case Nil
  then show ?case by simp
next
  case (Cons c pre)
  have "rx_match r (c # (pre @ t)) = None" by (rule Cons.prems) simp
  then have "re_sub r repl ((c # pre) @ t) = c # re_sub r repl (pre @ t)"
    by (simp add: sub_nomatch)
  also have "re_sub r repl (pre @ t) = pre @ re_sub r repl t"
    by (rule Cons.IH) (simp add: Cons.prems)
  finally show ?case by simp
qed

lemma table_needs_pipe: "c \<noteq> CHR ''|'' \<Longrightarrow> rx_match table_pattern (c # cs) = None"
  by (simp add: rx_match_def table_pattern_def ch_def)

lemma block_equation_needs_dollar:
  "c \<noteq> CHR ''$'' \<Longrightarrow> rx_match block_equation_pattern (c # cs) = None"
  by (simp add: rx_match_def block_equation_pattern_def ch_def)

lemma ms_Lit_none: "\<forall>c \<in> set s. \<not> P c \<Longrightarrow> ms (Lit P) s = []"
  by (cases s) simp_all

lemma ms_Plus_none: "ms a s = [] \<Longrightarrow> ms (Plus a) s = []"
  by (subst ms.simps(6)) simp

lemma ms_Cat_none: "(\<And>s'. s' \<in> set (ms a s) \<Longrightarrow> ms b s' = []) \<Longrightarrow> ms (Cat a b) s = []"
  by simp

lemma suffix_digit_free: "suffix t s \<Longrightarrow> \<forall>c \<in> set s. \<not> is_digit c \<Longrightarrow> \<forall>c \<in> set t. \<not> is_digit c"
  by (auto simp: suffix_def)

lemma figure_needs_digit:
  assumes "\<forall>c \<in> set s. \<not> is_digit c"
  shows "rx_match figure_pattern s = None"
proof -
  let ?rest = "cats (Lit (\<lambda>x. x = CHR ''.'' \<or> x = CHR '':''))
                 [Plus (not_ch nl), Opt (Cat (ch nl) (Plus (not_ch nl)))]"
  let ?head = "Alt (word ci ''Figure'') (Cat (word ci ''Fig'') (Opt (ch CHR ''.'')))"
  have fp: "figure_pattern = Cat ?head (Cat (Plus (Lit is_space)) (Cat (Plus (Lit is_digit)) ?rest))"
    by (simp add: figure_pattern_def)
  have d: "ms (Cat (Plus (Lit is_digit)) ?rest) t = []" if "\<forall>c \<in> set t. \<not> is_digit c" for t
  proof (rule ms_Cat_none)
    fix s' assume "s' \<in> set (ms (Plus (Lit is_digit)) t)"
    moreover have "ms (Plus (Lit is_digit)) t = []"
      by (rule ms_Plus_none) (rule ms_Lit_none[OF that])
    ultimately show "ms ?rest s' = []" by simp
  qed
  have w: "ms (Cat (Plus (Lit is_space)) (Cat (Plus (Lit is_digit)) ?rest)) t = []"
    if t: "\<forall>c \<in> set t. \<not> is_digit c" for t
  proof (rule ms_Cat_none)
    fix s' assume "s' \<in> set (ms (Plus (Lit is_space)) t)"
    then have "suffix s' t" by (rule ms_suffix)
    then have "\<forall>c \<in> set s'. \<not> is_digit c" using t by (rule suffix_digit_free)
    then show "ms (Cat (Plus (Lit is_digit)) ?rest) s' = []" by (rule d)
  qed
  have "ms figure_pattern s = []"
    unfolding fp
  proof (rule ms_Cat_none)
    fix s' assume "s' \<in> set (ms ?head s)"
    then have "suffix s' s" by (rule ms_suffix)
    then have "\<forall>c \<in> set s'. \<not> is_digit c" using assms by (rule suffix_digit_free)
    then show "ms (Cat (Plus (Lit is_space)) (Cat (Plus (Lit is_digit)) ?rest)) s' = []" by (rule w)
  qed
  then show ?thesis by (simp add: rx_match_def)
qed

lemma sub_no_match_anywhere:
  assumes "\<And>t. suffix t s \<Longrightarrow> rx_match r t = None"
  shows "re_sub r repl s = s"
  using assms
proof (induction s)
  case Nil
  then show ?case by (simp add: sub_Nil)
next
  case (Cons c s)
  have "rx_match r (c # s) = None" by (rule Cons.prems) simp
  then have "re_sub r repl (c # s) = c # re_sub r repl s" by (rule sub_nomatch)
  moreover have "re_sub r repl s = s"
    by (rule Cons.IH) (rule Cons.prems, simp add: suffix_Cons)
  ultimately show ?case by simp
qed

lemma sub_figure_digit_free:
  "\<forall>c \<in> set s. \<not> is_digit c \<Longrightarrow> re_sub figure_pattern repl s = s"
  by (rule sub_no_match_anywhere) (rule figure_needs_digit, rule suffix_digit_free)


section \<open>The table scenario\<close>

lemma finditer_from_Cons:
  "finditer_from r k (c # cs) =
     (case rx_match r (c # cs) of
        None \<Rightarrow> finditer_from r (Suc k) cs
      | Some n \<Rightarrow> if n = 0 then finditer_from r (Suc k) cs
                  else (k, take n (c # cs)) # finditer_from r (k + n) (drop n (c # cs)))"
  by (subst finditer_from.simps) (simp split: option.split)

lemma sub_Cons:
  "re_sub r repl (c # cs) =
     (case rx_match r (c # cs) of
        None \<Rightarrow> c # re_sub r repl cs
      | Some n \<Rightarrow> if n = 0 then c # re_sub r repl cs else repl @ re_sub r repl (drop n (c # cs)))"
  by (subst re_sub.simps) (simp split: option.split)

lemmas rx_eval = rx_match_def ms.simps(6) ch_def not_ch_def nl_def

lemma table_match_bounded:
  "rx_match table_pattern ''| Revenue | Cost |\<newline>|---|\<newline>| 100 | 50 |\<newline>'' = Some 38"
  by (simp add: rx_eval table_pattern_def)

lemma finditer_bounded_table:
  "finditer_from table_pattern k ''| Revenue | Cost |\<newline>|---|\<newline>| 100 | 50 |\<newline>''
     = [(k, ''| Revenue | Cost |\<newline>|---|\<newline>| 100 | 50 |\<newline>'')]"
  by (simp add: finditer_from_match[OF table_match_bounded] finditer_from_Nil)

lemma sub_bounded_table:
  "re_sub table_pattern repl ''| Revenue | Cost |\<newline>|---|\<newline>| 100 | 50 |\<newline>'' = repl"
  by (simp add: sub_match[OF table_match_bounded] sub_Nil)

lemma finditer_claimed_table:
  "finditer_from table_pattern k ''Revenue | Cost\<newline>---|---\<newline>100 | 50\<newline>'' = []"
  by (simp add: finditer_from_Cons finditer_from_Nil rx_eval table_pattern_def)

lemma sub_claimed_table:
  "re_sub table_pattern repl ''Revenue | Cost\<newline>---|---\<newline>100 | 50\<newline>''
     = ''Revenue | Cost\<newline>---|---\<newline>100 | 50\<newline>''"
  by (simp add: sub_Cons sub_Nil rx_eval table_pattern_def)


lemma table_node_text:
  "\<exists>context. node_text (table_node txt md (i, m)) = ''TABLE:'' @ [nl] @ context @ [nl, nl] @ m"
  by (simp add: table_node_def Let_def)

text \<open>
  Claim C1 (as amended).  After a sentence without a pipe character, the table of the scenario, whose rows
  do not begin and end with a pipe, gives no table chunk and the table
  substitution leaves the text as it is.  With pipe-bounded rows and a one-cell
  separator row, extraction gives exactly one chunk, of content type \<open>table\<close>,
  whose text starts with \<open>TABLE:\<close> and contains the rows; and when the sentence has
  no dollar sign and no digit either, the residual text is the sentence followed by
  \<open>[TABLE REMOVED]\<close>.
\<close>

theorem table_scenario:
  assumes "CHR ''|'' \<notin> set sentence"
  shows "extract_tables (sentence @ ''Revenue | Cost\<newline>---|---\<newline>100 | 50\<newline>'') md = []
       \<and> re_sub table_pattern ''[TABLE REMOVED]''
            (sentence @ ''Revenue | Cost\<newline>---|---\<newline>100 | 50\<newline>'')
          = sentence @ ''Revenue | Cost\<newline>---|---\<newline>100 | 50\<newline>''
       \<and> (\<exists>n. extract_tables
                 (sentence @ ''| Revenue | Cost |\<newline>|---|\<newline>| 100 | 50 |\<newline>'') md = [n]
              \<and> metadata n ''content_type'' = Some (PStr ''table'')
              \<and> prefix ''TABLE:'' (node_text n)
              \<and> py_in ''| Revenue | Cost |\<newline>|---|\<newline>| 100 | 50 |\<newline>'' (node_text n))
       \<and> (CHR ''$'' \<notin> set sentence \<and> (\<forall>c \<in> set sentence. \<not> is_digit c)
            \<longrightarrow> remove_special_content
                  (sentence @ ''| Revenue | Cost |\<newline>|---|\<newline>| 100 | 50 |\<newline>'')
                = sentence @ ''[TABLE REMOVED]'')"
proof -
  let ?claimed = "''Revenue | Cost\<newline>---|---\<newline>100 | 50\<newline>''"
  let ?bounded = "''| Revenue | Cost |\<newline>|---|\<newline>| 100 | 50 |\<newline>''"
  have skip: "rx_match table_pattern (c # cs) = None" if "c \<in> set sentence" for c cs
    using that assms by (intro table_needs_pipe) auto
  have a: "extract_tables (sentence @ ?claimed) md = []"
    by (simp add: extract_tables_def finditer_def finditer_from_skip[OF skip]
        finditer_claimed_table)
  have b: "re_sub table_pattern ''[TABLE REMOVED]'' (sentence @ ?claimed) = sentence @ ?claimed"
    by (simp only: sub_skip[OF skip] sub_claimed_table)
  have f: "finditer table_pattern (sentence @ ?bounded) = [(length sentence, ?bounded)]"
    by (simp add: finditer_def finditer_from_skip[OF skip] finditer_bounded_table)
  let ?n = "table_node (sentence @ ?bounded) md (length sentence, ?bounded)"
  obtain ctx where ctx: "node_text ?n = ''TABLE:'' @ [nl] @ ctx @ [nl, nl] @ ?bounded"
    using table_node_text by blast
  have c1: "extract_tables (sentence @ ?bounded) md = [?n]"
    by (simp add: extract_tables_def f)
  have c2: "metadata ?n ''content_type'' = Some (PStr ''table'')"
    by (simp add: table_node_def Let_def)
  have c3: "prefix ''TABLE:'' (node_text ?n)"
    unfolding ctx by simp
  have "suffix ?bounded (node_text ?n)"
    unfolding ctx by (rule suffixI[of _ "''TABLE:'' @ [nl] @ ctx @ [nl, nl]"]) simp
  then have c4: "py_in ?bounded (node_text ?n)"
    unfolding py_in_sublist by (rule suffix_imp_sublist)
  have d: "remove_special_content (sentence @ ?bounded) = sentence @ ''[TABLE REMOVED]''"
    if h: "CHR ''$'' \<notin> set sentence" "\<forall>c \<in> set sentence. \<not> is_digit c"
  proof -
    have t1: "re_sub table_pattern ''[TABLE REMOVED]'' (sentence @ ?bounded)
                = sentence @ ''[TABLE REMOVED]''"
      by (simp only: sub_skip[OF skip] sub_bounded_table)
    have nd: "rx_match block_equation_pattern (c # cs) = None"
      if "c \<in> set (sentence @ ''[TABLE REMOVED]'')" for c cs
      using that h(1) by (intro block_equation_needs_dollar) auto
    have t2: "re_sub block_equation_pattern ''[EQUATION REMOVED]'' (sentence @ ''[TABLE REMOVED]'')
                = sentence @ ''[TABLE REMOVED]''"
    proof -
      have "re_sub block_equation_pattern ''[EQUATION REMOVED]'' ((sentence @ ''[TABLE REMOVED]'') @ [])
              = (sentence @ ''[TABLE REMOVED]'') @ re_sub block_equation_pattern ''[EQUATION REMOVED]'' []"
        by (rule sub_skip[OF nd])
      then show ?thesis by (simp only: sub_Nil append_Nil2)
    qed
    have df: "\<forall>c \<in> set (sentence @ ''[TABLE REMOVED]''). \<not> is_digit c"
      using h(2) by (auto simp: is_digit_def)
    have t3: "re_sub figure_pattern ''[FIGURE REMOVED]'' (sentence @ ''[TABLE REMOVED]'')
                = sentence @ ''[TABLE REMOVED]''"
      by (rule sub_figure_digit_free[OF df])
    show ?thesis
      by (simp only: remove_special_content_def Let_def t1 t2 t3)
  qed
  from a b c1 c2 c3 c4 d show ?thesis by blast
qed

lemma example_finditer:
  "finditer table_pattern
     (''The results are shown below.\<newline>'' @ ''| Revenue | Cost |\<newline>|---|\<newline>| 100 | 50 |\<newline>'')
   = [(29, ''| Revenue | Cost |\<newline>|---|\<newline>| 100 | 50 |\<newline>'')]"
  by (simp add: finditer_def finditer_from_Cons finditer_from_Nil rx_eval table_pattern_def)


lemma rfind_zero: "rfind s c 0 = -1"
  by (simp add: rfind_def)

lemma py_slice_minus_one: "b < length s \<Longrightarrow> py_slice s (-1) (int b) = []"
  by (simp add: py_slice_def slice_bound_def Let_def)

lemma strip_Nil: "strip [] = []"
  by (simp add: strip_def strip_chars_def)

lemma table_node_near_start:
  "i \<le> 200 \<Longrightarrow> i < length txt \<Longrightarrow>
   node_text (table_node txt md (i, m)) = ''TABLE:'' @ [nl] @ [nl, nl] @ m"
  by (simp add: table_node_def rfind_zero py_slice_minus_one strip_Nil)

lemma example_table_node:
  "node_text (table_node
     (''The results are shown below.\<newline>'' @ ''| Revenue | Cost |\<newline>|---|\<newline>| 100 | 50 |\<newline>'')
     Map.empty (29, ''| Revenue | Cost |\<newline>|---|\<newline>| 100 | 50 |\<newline>''))
   = ''TABLE:\<newline>\<newline>\<newline>| Revenue | Cost |\<newline>|---|\<newline>| 100 | 50 |\<newline>''"
  by (subst table_node_near_start) (simp_all add: nl_def)


theorem table_scenario_witness:
  "CHR ''|'' \<notin> set ''The results are shown below.\<newline>''
   \<and> CHR ''$'' \<notin> set ''The results are shown below.\<newline>''
   \<and> list_all (\<lambda>c. \<not> is_digit c) ''The results are shown below.\<newline>''
   \<and> map node_text (extract_tables
         (''The results are shown below.\<newline>'' @ ''| Revenue | Cost |\<newline>|---|\<newline>| 100 | 50 |\<newline>'')
         Map.empty)
       = [''TABLE:\<newline>\<newline>\<newline>| Revenue | Cost |\<newline>|---|\<newline>| 100 | 50 |\<newline>'']
   \<and> remove_special_content
         (''The results are shown below.\<newline>'' @ ''| Revenue | Cost |\<newline>|---|\<newline>| 100 | 50 |\<newline>'')
       = ''The results are shown below.\<newline>'' @ ''[TABLE REMOVED]''"
proof -
  let ?s = "''The results are shown below.\<newline>''"
  let ?bounded = "''| Revenue | Cost |\<newline>|---|\<newline>| 100 | 50 |\<newline>''"
  have h1: "CHR ''|'' \<notin> set ?s" by simp
  have h2: "CHR ''$'' \<notin> set ?s" by simp
  have h3: "list_all (\<lambda>c. \<not> is_digit c) ?s" by (simp add: is_digit_def)
  then have h3': "\<forall>c \<in> set ?s. \<not> is_digit c" unfolding list_all_iff .
  have v: "map node_text (extract_tables (?s @ ?bounded) Map.empty)
             = [''TABLE:\<newline>\<newline>\<newline>| Revenue | Cost |\<newline>|---|\<newline>| 100 | 50 |\<newline>'']"
    by (simp only: extract_tables_def example_finditer list.map example_table_node)
  note t = table_scenario[OF h1, of Map.empty]
  from t h2 h3' have r: "remove_special_content (?s @ ?bounded) = ?s @ ''[TABLE REMOVED]''"
    by blast
  from h1 h2 h3 v r show ?thesis by blast
qed

lemma cex_a: "finditer table_pattern (''The results are shown below.\<newline>'' @ ''Revenue | Cost\<newline>---|---\<newline>100 | 50\<newline>'') = []"
  by (simp add: finditer_def finditer_from_Cons finditer_from_Nil rx_eval table_pattern_def)

lemma cex_t1: "re_sub table_pattern ''[TABLE REMOVED]'' (''The results are shown below.\<newline>'' @ ''Revenue | Cost\<newline>---|---\<newline>100 | 50\<newline>'') = ''The results are shown below.\<newline>'' @ ''Revenue | Cost\<newline>---|---\<newline>100 | 50\<newline>''"
  by (simp add: sub_Cons sub_Nil rx_eval table_pattern_def)

lemma cex_t2: "re_sub block_equation_pattern ''[EQUATION REMOVED]'' (''The results are shown below.\<newline>'' @ ''Revenue | Cost\<newline>---|---\<newline>100 | 50\<newline>'') = ''The results are shown below.\<newline>'' @ ''Revenue | Cost\<newline>---|---\<newline>100 | 50\<newline>''"
  by (simp add: sub_Cons sub_Nil rx_eval block_equation_pattern_def)


lemma cex_t3: "re_sub figure_pattern ''[FIGURE REMOVED]'' (''The results are shown below.\<newline>'' @ ''Revenue | Cost\<newline>---|---\<newline>100 | 50\<newline>'') = ''The results are shown below.\<newline>'' @ ''Revenue | Cost\<newline>---|---\<newline>100 | 50\<newline>''"
  by code_simp

text \<open>
  Claim C1 (as stated).  On a sentence followed by the table of the scenario, extraction gives no table
  chunk and the residual text is the input, without a placeholder.
\<close>

theorem table_scenario_counterexample:
  "extract_tables
     (''The results are shown below.\<newline>'' @ ''Revenue | Cost\<newline>---|---\<newline>100 | 50\<newline>'')
     Map.empty = []
   \<and> remove_special_content
       (''The results are shown below.\<newline>'' @ ''Revenue | Cost\<newline>---|---\<newline>100 | 50\<newline>'')
     = ''The results are shown below.\<newline>'' @ ''Revenue | Cost\<newline>---|---\<newline>100 | 50\<newline>''
   \<and> \<not> py_in ''[TABLE REMOVED]''
         (remove_special_content
           (''The results are shown below.\<newline>'' @ ''Revenue | Cost\<newline>---|---\<newline>100 | 50\<newline>''))"
proof -
  let ?t = "''The results are shown below.\<newline>'' @ ''Revenue | Cost\<newline>---|---\<newline>100 | 50\<newline>''"
  have a: "extract_tables ?t Map.empty = []"
    by (simp only: extract_tables_def cex_a list.map)
  have b: "remove_special_content ?t = ?t"
    by (simp only: remove_special_content_def Let_def cex_t1 cex_t2 cex_t3)
  have c: "\<not> py_in ''[TABLE REMOVED]'' (remove_special_content ?t)"
    unfolding b by simp
  from a b c show ?thesis by blast
qed


section \<open>The patterns never match the empty string\<close>

text \<open>
  Every match of the four patterns takes at least one character, so \<open>finditer\<close> and
  \<open>re_sub\<close> never meet a match of length 0.
\<close>

lemma ms_Lit_shorter: "s' \<in> set (ms (Lit P) s) \<Longrightarrow> length s' < length s"
  by (cases s) (simp_all split: if_splits)

lemma ms_Cat_shorter:
  assumes "\<And>t t'. t' \<in> set (ms a t) \<Longrightarrow> length t' < length t"
    and "s' \<in> set (ms (Cat a b) s)"
  shows "length s' < length s"
proof -
  from assms(2) obtain s1 where s1: "s1 \<in> set (ms a s)" "s' \<in> set (ms b s1)" by auto
  have "length s' \<le> length s1" using ms_suffix[OF s1(2)] by (rule suffix_length_le)
  moreover have "length s1 < length s" by (rule assms(1)[OF s1(1)])
  ultimately show ?thesis by simp
qed

lemma ms_Lit_Cat_shorter: "s' \<in> set (ms (Cat (Lit P) b) s) \<Longrightarrow> length s' < length s"
  using ms_Cat_shorter[of "Lit P" s' b s] ms_Lit_shorter by blast

lemma ms_Alt_shorter:
  assumes "\<And>t t'. t' \<in> set (ms a t) \<Longrightarrow> length t' < length t"
    and "\<And>t t'. t' \<in> set (ms b t) \<Longrightarrow> length t' < length t"
    and "s' \<in> set (ms (Alt a b) s)"
  shows "length s' < length s"
  using assms by auto

lemma rx_match_positive:
  assumes "\<And>t t'. t' \<in> set (ms r t) \<Longrightarrow> length t' < length t"
  shows "rx_match r s \<noteq> Some 0"
proof (cases "ms r s")
  case Nil
  then show ?thesis by (simp add: rx_match_def)
next
  case (Cons s' rest)
  then have "length s' < length s" using assms[of s' s] by simp
  then show ?thesis using Cons by (simp add: rx_match_def)
qed



lemma equation_pattern_consumes: "rx_match equation_pattern s \<noteq> Some 0"
proof (rule rx_match_positive)
  fix t t' assume a: "t' \<in> set (ms equation_pattern t)"
  show "length t' < length t"
  proof (rule ms_Alt_shorter[OF _ _ a[unfolded equation_pattern_def]])
    fix u u' assume "u' \<in> set (ms block_equation_pattern u)"
    then show "length u' < length u"
      by (simp only: block_equation_pattern_def cats.simps ch_def) (erule ms_Lit_Cat_shorter)
  next
    fix u u' assume "u' \<in> set (ms (cats (ch CHR ''$'') [Plus (not_ch CHR ''$''), ch CHR ''$'']) u)"
    then show "length u' < length u"
      by (simp only: cats.simps ch_def) (erule ms_Lit_Cat_shorter)
  qed
qed


section \<open>Page keys\<close>

text \<open>\<open>str\<close> on integers is injective: different pages have different keys.\<close>

lemma str_nat_nonempty: "str_nat n \<noteq> []"
  by (subst str_nat.simps) simp

lemma of_char_digit_char: "d < 10 \<Longrightarrow> (of_char (digit_char d) :: nat) = 48 + d"
proof -
  assume d: "d < 10"
  have "(of_char (char_of (48 + d)) :: nat) = (48 + d) mod 256" by (rule of_char_of)
  also have "\<dots> = 48 + d" using d by simp
  finally show ?thesis by (simp only: digit_char_def)
qed

lemma digit_char_inj:
  assumes "a < 10" and "b < 10" and "digit_char a = digit_char b"
  shows "a = b"
proof -
  have "(of_char (digit_char a) :: nat) = of_char (digit_char b)" by (simp only: assms(3))
  then have "48 + a = 48 + b"
    by (simp only: of_char_digit_char[OF assms(1)] of_char_digit_char[OF assms(2)])
  then show ?thesis by simp
qed

lemma str_nat_digits: "\<forall>c \<in> set (str_nat n). is_digit c"
proof (induction n rule: str_nat.induct)
  case (1 n)
  show ?case
  proof (cases "n < 10")
    case True
    then show ?thesis
      by (subst str_nat.simps) (simp add: is_digit_def of_char_digit_char)
  next
    case False
    have "is_digit (digit_char (n mod 10))"
      by (simp add: is_digit_def of_char_digit_char)
    with "1.IH"[OF False] False show ?thesis
      by (subst str_nat.simps) simp
  qed
qed

lemma str_nat_inj: "str_nat m = str_nat n \<Longrightarrow> m = n"
proof (induction m arbitrary: n rule: str_nat.induct)
  case (1 m)
  show ?case
  proof (cases "m < 10")
    case m: True
    show ?thesis
    proof (cases "n < 10")
      case True
      with m "1.prems" have "digit_char m = digit_char n"
        by (simp add: str_nat.simps[of m] str_nat.simps[of n])
      then show ?thesis using m True by (rule digit_char_inj[rotated 2])
    next
      case False
      with m "1.prems" have "[digit_char m] = str_nat (n div 10) @ [digit_char (n mod 10)]"
        by (simp add: str_nat.simps[of m] str_nat.simps[of n])
      then have "str_nat (n div 10) = []" by simp
      then show ?thesis using str_nat_nonempty by blast
    qed
  next
    case m: False
    show ?thesis
    proof (cases "n < 10")
      case True
      with m "1.prems" have "str_nat (m div 10) @ [digit_char (m mod 10)] = [digit_char n]"
        by (simp add: str_nat.simps[of m] str_nat.simps[of n])
      then have "str_nat (m div 10) = []" by simp
      then show ?thesis using str_nat_nonempty by blast
    next
      case False
      with m "1.prems" have e: "str_nat (m div 10) @ [digit_char (m mod 10)]
                                 = str_nat (n div 10) @ [digit_char (n mod 10)]"
        by (simp add: str_nat.simps[of m] str_nat.simps[of n])
      then have e1: "str_nat (m div 10) = str_nat (n div 10)"
        and e2: "digit_char (m mod 10) = digit_char (n mod 10)" by simp_all
      have d: "m div 10 = n div 10" by (rule "1.IH"[OF m e1])
      have r: "m mod 10 = n mod 10" by (rule digit_char_inj[OF _ _ e2]) simp_all
      from d r show ?thesis by (metis div_mult_mod_eq)
    qed
  qed
qed

lemma str_int_inj: "str_int a = str_int b \<Longrightarrow> a = b"
proof -
  assume e: "str_int a = str_int b"
  have nd: "\<not> is_digit CHR ''-''" by (simp add: is_digit_def)
  have ne: "CHR ''-'' # xs \<noteq> str_nat k" for xs k
  proof
    assume "CHR ''-'' # xs = str_nat k"
    then have "CHR ''-'' \<in> set (str_nat k)" by (metis list.set_intros(1))
    with str_nat_digits nd show False by blast
  qed
  show ?thesis
  proof (cases "a < 0")
    case a: True
    show ?thesis
    proof (cases "b < 0")
      case True
      with a e have "str_nat (nat (- a)) = str_nat (nat (- b))" by (simp add: str_int_def)
      then have "nat (- a) = nat (- b)" by (rule str_nat_inj)
      with a True show ?thesis by simp
    next
      case False
      with a e ne show ?thesis by (simp add: str_int_def)
    qed
  next
    case a: False
    show ?thesis
    proof (cases "b < 0")
      case True
      with a e ne[of "str_nat (nat (- b))" "nat a"] show ?thesis by (simp add: str_int_def)
    next
      case False
      with a e have "str_nat (nat a) = str_nat (nat b)" by (simp add: str_int_def)
      then have "nat a = nat b" by (rule str_nat_inj)
      with a False show ?thesis by simp
    qed
  qed
qed

section \<open>Matching depends only on the text that is consumed\<close>









section \<open>A substitution and the texts its pattern matches\<close>


















section \<open>No figure caption is left after the figure substitution\<close>























section \<open>The removal pass\<close>















section \<open>A table text that comes back\<close>

text \<open>
  The substitutions run one after the other.  Here the first table is extracted and
  replaced, and the equation substitution then turns a later stretch, which is no
  table in the input, into the same text: the residual text contains the extracted
  span.
\<close>

lemma table_text_can_reappear:
  "map snd (finditer table_pattern
      ''|[EQUATION REMOVED]|\<newline>|-|\<newline>|b|\<newline>X|$$x\<newline>y$$|\<newline>|-|\<newline>|b|\<newline>'')
     = [''|[EQUATION REMOVED]|\<newline>|-|\<newline>|b|\<newline>'']
   \<and> remove_special_content
      ''|[EQUATION REMOVED]|\<newline>|-|\<newline>|b|\<newline>X|$$x\<newline>y$$|\<newline>|-|\<newline>|b|\<newline>''
     = ''[TABLE REMOVED]X|[EQUATION REMOVED]|\<newline>|-|\<newline>|b|\<newline>''"
  by code_simp

text \<open>
  The same for an equation in double dollars: the equation extraction matches it, the
  equation substitution matches two characters earlier and leaves the text of the
  extracted span; or the figure substitution makes that text after the equation
  substitution has run.
\<close>

lemma block_text_can_reappear:
  "map snd (finditer equation_pattern ''$$$$[EQUATION REMOVED]$$$$'') = [''$$[EQUATION REMOVED]$$'']
   \<and> remove_special_content ''$$$$[EQUATION REMOVED]$$$$'' = ''$$[EQUATION REMOVED]$$''"
  by code_simp

lemma block_text_can_reappear_after_figures:
  "map snd (finditer equation_pattern ''$$Fig 1:a$\<newline>b\<newline>$$$$[FIGURE REMOVED]\<newline>$$'')
     = [''$Fig 1:a$'', ''$$[FIGURE REMOVED]\<newline>$$'']
   \<and> remove_special_content ''$$Fig 1:a$\<newline>b\<newline>$$$$[FIGURE REMOVED]\<newline>$$''
     = ''$$[FIGURE REMOVED]\<newline>$$[EQUATION REMOVED]''"
  by code_simp

end
